theory Spec2Isabelle
  imports Main "HOL-Library.Char_ord" "HOL-Library.List_Lexorder"
begin

section \<open>Values of the embedded state\<close>

text \<open>
  The program works on what \<^verbatim>\<open>json.loads\<close> returns: \<^verbatim>\<open>None\<close>, booleans, integers,
  strings, lists and dictionaries with string keys. Python's integers are unbounded
  (\<^typ>\<open>int\<close>). A string is a list of 8-bit characters, read as the code points 0 to 255;
  a dictionary is an association list read with \<^const>\<open>map_of\<close>. Numbers with a fraction
  or an exponent (Python floats) are not part of the model.
\<close>

datatype json =
    JNull
  | JBool bool
  | JInt int
  | JStr string
  | JList "json list"
  | JDict "(string \<times> json) list"

text \<open>The exceptions that the modelled functions can raise.\<close>

datatype py_error =
  AttributeError | TypeError | KeyError | IndexError | JSONDecodeError | TransportError

text \<open>Truth value of an object, as \<^verbatim>\<open>if x\<close>, \<^verbatim>\<open>not x\<close> and \<^verbatim>\<open>x or y\<close> test it.\<close>

fun truthy :: "json \<Rightarrow> bool" where
  "truthy JNull = False"
| "truthy (JBool b) = b"
| "truthy (JInt n) = (n \<noteq> 0)"
| "truthy (JStr s) = (s \<noteq> [])"
| "truthy (JList xs) = (xs \<noteq> [])"
| "truthy (JDict kvs) = (kvs \<noteq> [])"

definition py_or :: "json \<Rightarrow> json \<Rightarrow> json" where
  "py_or a b = (if truthy a then a else b)"

text \<open>\<^verbatim>\<open>d.get(k)\<close> on a dictionary: the value, or \<^verbatim>\<open>None\<close> for a missing key.\<close>

definition dict_get :: "(string \<times> json) list \<Rightarrow> string \<Rightarrow> json" where
  "dict_get kvs k = (case map_of kvs k of None \<Rightarrow> JNull | Some v \<Rightarrow> v)"

text \<open>\<^verbatim>\<open>x.get(k)\<close> on any object: only a dictionary has the method.\<close>

fun get :: "json \<Rightarrow> string \<Rightarrow> py_error + json" where
  "get (JDict kvs) k = Inr (dict_get kvs k)"
| "get _ k = Inl AttributeError"

text \<open>
  \<^verbatim>\<open>x[k]\<close> with a string key. A missing key (KeyError) and an object that is not a
  dictionary (TypeError) both raise; \<^const>\<open>None\<close> stands for either exception.
\<close>

fun subscript :: "json \<Rightarrow> string \<Rightarrow> json option" where
  "subscript (JDict kvs) k = map_of kvs k"
| "subscript _ k = None"

text \<open>
  \<^verbatim>\<open>for x in v\<close>: a list yields its elements, a dictionary its keys, a string its
  characters; nothing else can be iterated.
\<close>

fun py_iter :: "json \<Rightarrow> py_error + json list" where
  "py_iter (JList xs) = Inr xs"
| "py_iter (JDict kvs) = Inr (map (\<lambda>kv. JStr (fst kv)) kvs)"
| "py_iter (JStr s) = Inr (map (\<lambda>c. JStr [c]) s)"
| "py_iter _ = Inl TypeError"

text \<open>\<^verbatim>\<open>x == n\<close> for an integer \<^verbatim>\<open>n\<close>: \<^verbatim>\<open>True\<close> and \<^verbatim>\<open>False\<close> compare as 1 and 0.\<close>

fun py_eq_int :: "json \<Rightarrow> int \<Rightarrow> bool" where
  "py_eq_int (JInt n) m = (n = m)"
| "py_eq_int (JBool b) m = ((if b then 1 else 0) = m)"
| "py_eq_int _ m = False"

section \<open>Query-record resolver\<close>

text \<open>The walk \<^verbatim>\<open>next_data["props"]["pageProps"]["trpcState"]["json"]["queries"]\<close>.\<close>

definition trpc_queries :: "json \<Rightarrow> json option" where
  "trpc_queries next_data =
     Option.bind (subscript next_data ''props'') (\<lambda>a.
     Option.bind (subscript a ''pageProps'') (\<lambda>b.
     Option.bind (subscript b ''trpcState'') (\<lambda>c.
     Option.bind (subscript c ''json'') (\<lambda>d.
     subscript d ''queries''))))"

text \<open>
  The test on \<^verbatim>\<open>first = key[0]\<close>: a list of at least two elements that starts with
  \<^verbatim>\<open>"model", "getById"\<close>.
\<close>

fun is_getById :: "json \<Rightarrow> bool" where
  "is_getById (JList (a # b # rest)) = (a = JStr ''model'' \<and> b = JStr ''getById'')"
| "is_getById _ = False"

text \<open>\<^verbatim>\<open>q.get("state", {})\<close>: the default is used only when the key is missing.\<close>

fun get_state :: "json \<Rightarrow> py_error + json" where
  "get_state (JDict kvs) =
     Inr (case map_of kvs ''state'' of None \<Rightarrow> JDict [] | Some s \<Rightarrow> s)"
| "get_state _ = Inl AttributeError"

text \<open>
  One descriptor of the loop, up to the test on \<^verbatim>\<open>data\<close>: \<^term>\<open>Inr (Some data)\<close> when the
  descriptor is a candidate, \<^term>\<open>Inr None\<close> when the loop continues with the next one,
  \<^term>\<open>Inl e\<close> when the descriptor raises.
\<close>

definition query_data :: "json \<Rightarrow> py_error + json option" where
  "query_data q =
     (case get q ''queryKey'' of
        Inl e \<Rightarrow> Inl e
      | Inr key \<Rightarrow>
          (case key of
             JList (first # rest) \<Rightarrow>
               if is_getById first then
                 (case get_state q of
                    Inl e \<Rightarrow> Inl e
                  | Inr st \<Rightarrow>
                      (case get st ''data'' of
                         Inl e \<Rightarrow> Inl e
                       | Inr (JDict d) \<Rightarrow> Inr (Some (JDict d))
                       | Inr _ \<Rightarrow> Inr None))
               else Inr None
           | _ \<Rightarrow> Inr None))"

text \<open>\<^verbatim>\<open>model_id is None or data.get("id") == model_id\<close>, for a dictionary \<^verbatim>\<open>data\<close>.\<close>

fun id_accepted :: "int option \<Rightarrow> json \<Rightarrow> bool" where
  "id_accepted None data = True"
| "id_accepted (Some m) (JDict d) = py_eq_int (dict_get d ''id'') m"
| "id_accepted (Some m) _ = False"

text \<open>The loop over the descriptors, with the running fallback \<^verbatim>\<open>candidate\<close>.\<close>

fun scan_queries :: "int option \<Rightarrow> json option \<Rightarrow> json list \<Rightarrow> py_error + json option" where
  "scan_queries model_id candidate [] = Inr candidate"
| "scan_queries model_id candidate (q # qs) =
     (case query_data q of
        Inl e \<Rightarrow> Inl e
      | Inr None \<Rightarrow> scan_queries model_id candidate qs
      | Inr (Some data) \<Rightarrow>
          if id_accepted model_id data then Inr (Some data)
          else scan_queries model_id (Some data) qs)"

definition find_model_from_trpc :: "json \<Rightarrow> int option \<Rightarrow> py_error + json option" where
  "find_model_from_trpc next_data model_id =
     (case trpc_queries next_data of
        None \<Rightarrow> Inr None
      | Some queries \<Rightarrow>
          (case py_iter queries of
             Inl e \<Rightarrow> Inl e
           | Inr qs \<Rightarrow> scan_queries model_id None qs))"

text \<open>
  The candidates of a descriptor list, in order: the \<^verbatim>\<open>data\<close> of every descriptor whose
  key matches and whose \<^verbatim>\<open>state.data\<close> is a dictionary.
\<close>

definition candidates :: "json list \<Rightarrow> json list" where
  "candidates qs = List.map_filter (\<lambda>q. case query_data q of Inr (Some d) \<Rightarrow> Some d | _ \<Rightarrow> None) qs"

text \<open>No descriptor of the list raises.\<close>

definition descriptors_ok :: "json list \<Rightarrow> bool" where
  "descriptors_ok qs = list_all (\<lambda>q. case query_data q of Inl e \<Rightarrow> False | Inr r \<Rightarrow> True) qs"

text \<open>An embedded state with two candidates, of ids 1 and 2, after an unrelated query.\<close>

definition query_of :: "json \<Rightarrow> int \<Rightarrow> json" where
  "query_of key i =
     JDict [(''queryKey'', JList [key]),
            (''state'', JDict [(''data'', JDict [(''id'', JInt i)])])]"

definition two_queries :: "json list" where
  "two_queries =
     [query_of (JList [JStr ''other'']) 5,
      query_of (JList [JStr ''model'', JStr ''getById'']) 1,
      query_of (JList [JStr ''model'', JStr ''getById'']) 2]"

definition state_of :: "json list \<Rightarrow> json" where
  "state_of qs =
     JDict [(''props'', JDict [(''pageProps'', JDict [(''trpcState'',
       JDict [(''json'', JDict [(''queries'', JList qs)])])])])]"

section \<open>Strings and conversions\<close>

text \<open>
  \<^verbatim>\<open>str.strip()\<close> removes the white space of Python's \<^verbatim>\<open>str.isspace\<close> from both ends;
  among the code points 0 to 255 these are 9 to 13, 28 to 32, 133 and 160.
\<close>

definition py_isspace :: "char \<Rightarrow> bool" where
  "py_isspace c =
     (let n = (of_char c :: nat)
      in (9 \<le> n \<and> n \<le> 13) \<or> (28 \<le> n \<and> n \<le> 32) \<or> n = 133 \<or> n = 160)"

definition strip :: "string \<Rightarrow> string" where
  "strip s = rev (dropWhile py_isspace (rev (dropWhile py_isspace s)))"

text \<open>
  \<^verbatim>\<open>str.upper()\<close>: the letters a to z and the Latin-1 letters 224 to 254 (but 247) move
  down by 32. The upper-case forms of 181, 223 and 255 lie outside the 8-bit range and
  contain no ASCII letter but for 223, which becomes \<^verbatim>\<open>SS\<close>; they are left in place. The
  program only compares the result against \<^verbatim>\<open>AUTOV2\<close>, \<^verbatim>\<open>SHA256\<close>, \<^verbatim>\<open>SHA1\<close> and \<^verbatim>\<open>CRC32\<close>,
  none of which holds \<^verbatim>\<open>SS\<close>, so the comparison is not affected.
\<close>

definition upper_char :: "char \<Rightarrow> char" where
  "upper_char c =
     (let n = (of_char c :: nat)
      in if (97 \<le> n \<and> n \<le> 122) \<or> (224 \<le> n \<and> n \<le> 254 \<and> n \<noteq> 247)
         then char_of (n - 32) else c)"

definition upper :: "string \<Rightarrow> string" where
  "upper s = map upper_char s"

text \<open>\<^verbatim>\<open>sep.join(xs)\<close>.\<close>

fun join :: "string \<Rightarrow> string list \<Rightarrow> string" where
  "join sep [] = []"
| "join sep [x] = x"
| "join sep (x # y # ys) = x @ sep @ join sep (y # ys)"

text \<open>Decimal digits, for \<^verbatim>\<open>str(n)\<close> and \<^verbatim>\<open>int(s)\<close>.\<close>

definition is_digit :: "char \<Rightarrow> bool" where
  "is_digit c = (let n = (of_char c :: nat) in 48 \<le> n \<and> n \<le> 57)"

definition digit_val :: "char \<Rightarrow> nat" where
  "digit_val c = of_char c - 48"

definition digit_char :: "nat \<Rightarrow> char" where
  "digit_char n = char_of (48 + n)"

fun nat_digits :: "nat \<Rightarrow> string" where
  "nat_digits n =
     (if n < 10 then [digit_char n] else nat_digits (n div 10) @ [digit_char (n mod 10)])"

declare nat_digits.simps [simp del]

definition str_int :: "int \<Rightarrow> string" where
  "str_int i = (if i < 0 then CHR ''-'' # nat_digits (nat (- i)) else nat_digits (nat i))"

text \<open>
  \<^verbatim>\<open>repr\<close> of a string: double quotes when the string holds a single quote and no double
  quote, single quotes otherwise; the quote and the backslash are escaped, tab, line feed
  and carriage return are written with their letters, and every other character that is
  not printable (below 32, 127 to 160, 173) is written as a two-digit hexadecimal escape.
\<close>

definition hex_digit :: "nat \<Rightarrow> char" where
  "hex_digit k = (if k < 10 then char_of (48 + k) else char_of (87 + k))"

definition repr_char :: "char \<Rightarrow> char \<Rightarrow> string" where
  "repr_char quote c =
     (let n = (of_char c :: nat)
      in if c = quote \<or> n = 92 then [char_of (92 :: nat), c]
         else if n = 9 then [char_of (92 :: nat), CHR ''t'']
         else if n = 10 then [char_of (92 :: nat), CHR ''n'']
         else if n = 13 then [char_of (92 :: nat), CHR ''r'']
         else if n < 32 \<or> (127 \<le> n \<and> n \<le> 160) \<or> n = 173
           then [char_of (92 :: nat), CHR ''x'', hex_digit (n div 16), hex_digit (n mod 16)]
         else [c])"

definition repr_str :: "string \<Rightarrow> string" where
  "repr_str s =
     (let quote = (if char_of (39 :: nat) \<in> set s \<and> char_of (34 :: nat) \<notin> set s
                   then char_of (34 :: nat) else char_of (39 :: nat))
      in quote # concat (map (repr_char quote) s) @ [quote])"

text \<open>\<^verbatim>\<open>repr(x)\<close> and \<^verbatim>\<open>str(x)\<close>; they differ on strings only.\<close>

fun py_repr :: "json \<Rightarrow> string" where
  "py_repr JNull = ''None''"
| "py_repr (JBool b) = (if b then ''True'' else ''False'')"
| "py_repr (JInt n) = str_int n"
| "py_repr (JStr s) = repr_str s"
| "py_repr (JList xs) = ''['' @ join '', '' (map py_repr xs) @ '']''"
| "py_repr (JDict kvs) =
     ''{'' @ join '', '' (map (\<lambda>kv. repr_str (fst kv) @ '': '' @ py_repr (snd kv)) kvs) @ ''}''"

fun py_str :: "json \<Rightarrow> string" where
  "py_str (JStr s) = s"
| "py_str x = py_repr x"

text \<open>
  \<^verbatim>\<open>int(x)\<close>, with \<^const>\<open>None\<close> for TypeError and ValueError. The white space that
  \<^verbatim>\<open>int\<close> skips around the number is not that of \<^verbatim>\<open>str.strip\<close>: a character below 127
  counts when it is one of 9 to 13 and 32, and a character from 127 on when it is Unicode
  white space (133 and 160); the separators 28 to 31 make \<^verbatim>\<open>int\<close> raise ValueError. Between
  the white space, a string may start with a sign and holds decimal digits with single
  underscores between digits. The interpreter's limit on the length of a decimal string
  is not modelled.
\<close>

definition int_isspace :: "char \<Rightarrow> bool" where
  "int_isspace c =
     (let n = (of_char c :: nat) in (9 \<le> n \<and> n \<le> 13) \<or> n = 32 \<or> n = 133 \<or> n = 160)"

definition int_strip :: "string \<Rightarrow> string" where
  "int_strip s = rev (dropWhile int_isspace (rev (dropWhile int_isspace s)))"

fun parse_digits :: "nat \<Rightarrow> string \<Rightarrow> nat option" where
  "parse_digits acc [] = Some acc"
| "parse_digits acc (c # cs) =
     (if is_digit c then parse_digits (10 * acc + digit_val c) cs
      else if c = CHR ''_'' then
        (case cs of
           [] \<Rightarrow> None
         | d # ds \<Rightarrow> if is_digit d then parse_digits (10 * acc + digit_val d) ds else None)
      else None)"

definition parse_nat :: "string \<Rightarrow> nat option" where
  "parse_nat s =
     (case s of
        [] \<Rightarrow> None
      | c # cs \<Rightarrow> if is_digit c then parse_digits (digit_val c) cs else None)"

definition int_of_str :: "string \<Rightarrow> int option" where
  "int_of_str s =
     (case int_strip s of
        [] \<Rightarrow> None
      | c # cs \<Rightarrow>
          if c = CHR ''-'' then map_option (\<lambda>n. - int n) (parse_nat cs)
          else if c = CHR ''+'' then map_option int (parse_nat cs)
          else map_option int (parse_nat (c # cs)))"

fun py_int :: "json \<Rightarrow> int option" where
  "py_int (JInt n) = Some n"
| "py_int (JBool b) = Some (if b then 1 else 0)"
| "py_int (JStr s) = int_of_str s"
| "py_int _ = None"

section \<open>Version selector\<close>

text \<open>
  The body of the search loop, \<^verbatim>\<open>int(v.get("id")) == version_id\<close> inside \<^verbatim>\<open>try\<close>: an
  exception skips the version.
\<close>

definition version_id_matches :: "int \<Rightarrow> json \<Rightarrow> bool" where
  "version_id_matches version_id v =
     (case get v ''id'' of
        Inl e \<Rightarrow> False
      | Inr x \<Rightarrow> (case py_int x of None \<Rightarrow> False | Some n \<Rightarrow> n = version_id))"

fun search_version :: "int \<Rightarrow> json list \<Rightarrow> json option" where
  "search_version version_id [] = None"
| "search_version version_id (v # vs) =
     (if version_id_matches version_id v then Some v else search_version version_id vs)"

text \<open>\<^verbatim>\<open>_published_ts\<close>: \<^verbatim>\<open>str(v.get("publishedAt") or "")\<close>.\<close>

definition published_ts :: "json \<Rightarrow> py_error + string" where
  "published_ts v =
     (case get v ''publishedAt'' of
        Inl e \<Rightarrow> Inl e
      | Inr x \<Rightarrow> Inr (py_str (py_or x (JStr []))))"

text \<open>
  \<^verbatim>\<open>sorted(versions, key=_published_ts, reverse=True)\<close>. The keys of all elements are
  computed first, in order, and the first exception ends the call. The sort is stable:
  elements with equal keys keep their order, also under \<^verbatim>\<open>reverse=True\<close>. Strings compare
  lexicographically by code point.
\<close>

fun with_keys :: "json list \<Rightarrow> py_error + (string \<times> json) list" where
  "with_keys [] = Inr []"
| "with_keys (v # vs) =
     (case published_ts v of
        Inl e \<Rightarrow> Inl e
      | Inr k \<Rightarrow> (case with_keys vs of Inl e \<Rightarrow> Inl e | Inr kvs \<Rightarrow> Inr ((k, v) # kvs)))"

fun insert_desc :: "string \<times> json \<Rightarrow> (string \<times> json) list \<Rightarrow> (string \<times> json) list" where
  "insert_desc x [] = [x]"
| "insert_desc x (y # ys) = (if fst x < fst y then y # insert_desc x ys else x # y # ys)"

definition sorted_desc :: "(string \<times> json) list \<Rightarrow> (string \<times> json) list" where
  "sorted_desc kvs = foldr insert_desc kvs []"

definition choose_model_version :: "json \<Rightarrow> int option \<Rightarrow> py_error + json option" where
  "choose_model_version model_data version_id =
     (case get model_data ''modelVersions'' of
        Inl e \<Rightarrow> Inl e
      | Inr (JList (v # vs)) \<Rightarrow>
          (case (case version_id of None \<Rightarrow> None | Some n \<Rightarrow> search_version n (v # vs)) of
             Some found \<Rightarrow> Inr (Some found)
           | None \<Rightarrow>
               (case with_keys (v # vs) of
                  Inl e \<Rightarrow> Inl e
                | Inr kvs \<Rightarrow> Inr (Some (snd (hd (sorted_desc kvs))))))
      | Inr _ \<Rightarrow> Inr None)"

text \<open>The three versions of the example: ids 1 to 3 with their \<^verbatim>\<open>publishedAt\<close>.\<close>

definition version_of :: "int \<Rightarrow> string \<Rightarrow> json" where
  "version_of i p = JDict [(''id'', JInt i), (''publishedAt'', JStr p)]"

definition three_versions :: "json" where
  "three_versions =
     JDict [(''modelVersions'',
       JList [version_of 1 ''2023-01-01'', version_of 2 ''2024-05-05'',
              version_of 3 ''2023-12-31''])]"

text \<open>The value of a string of decimal digits.\<close>

definition decimal_value :: "string \<Rightarrow> nat" where
  "decimal_value s = foldl (\<lambda>a c. 10 * a + digit_val c) 0 s"

text \<open>
  Two models whose first version has an id that is not the target itself: the string
  \<^verbatim>\<open>1_0\<close> before the number 10, and \<^verbatim>\<open>true\<close> before the number 1.
\<close>

definition underscore_versions :: "json" where
  "underscore_versions =
     JDict [(''modelVersions'',
       JList [JDict [(''id'', JStr ''1_0''), (''publishedAt'', JStr ''2023-01-01'')],
              JDict [(''id'', JInt 10), (''publishedAt'', JStr ''2024-05-05'')]])]"

definition boolean_versions :: "json" where
  "boolean_versions =
     JDict [(''modelVersions'',
       JList [JDict [(''id'', JBool True), (''publishedAt'', JStr ''2023-01-01'')],
              JDict [(''id'', JInt 1), (''publishedAt'', JStr ''2024-05-05'')]])]"

definition three_list :: "json list" where
  "three_list = [version_of 1 ''2023-01-01'', version_of 2 ''2024-05-05'', version_of 3 ''2023-12-31'']"

section \<open>The network and the libraries\<close>

text \<open>
  What the program takes from outside, as functions of the request:
  \<^item> \<^verbatim>\<open>http_get\<close>: \<^verbatim>\<open>requests.get\<close> followed by \<^verbatim>\<open>raise_for_status\<close>; the body text, or the
    exception of a transport failure or of a status that is not a success;
  \<^item> \<^verbatim>\<open>http_head\<close>: \<^verbatim>\<open>requests.head\<close>; the \<^verbatim>\<open>Content-Disposition\<close> header of the response when
    it has one, or the exception of a transport failure (the status is not checked);
  \<^item> \<^verbatim>\<open>json_loads\<close>: \<^verbatim>\<open>json.loads\<close>, with \<^const>\<open>None\<close> for JSONDecodeError;
  \<^item> \<^verbatim>\<open>unquote\<close>: \<^verbatim>\<open>urllib.parse.unquote\<close>;
  \<^item> \<^verbatim>\<open>soup_imgs\<close>: \<^verbatim>\<open>BeautifulSoup(html, "html.parser").find_all("img")\<close>, each element as
    its \<^verbatim>\<open>src\<close> and \<^verbatim>\<open>class\<close> attributes, with \<^const>\<open>None\<close> when the parser raises.
\<close>

record world =
  http_get :: "string \<Rightarrow> py_error + string"
  http_head :: "string \<Rightarrow> py_error + string option"
  json_loads :: "string \<Rightarrow> json option"
  unquote :: "string \<Rightarrow> string"
  soup_imgs :: "string \<Rightarrow> (string option \<times> string list option) list option"

section \<open>File-name probe\<close>

text \<open>
  Matching under \<^verbatim>\<open>re.IGNORECASE\<close> against a pattern of ASCII characters: two characters
  match when they are equal after the letters A to Z are made lower case.
  \<^term>\<open>prefix_ci lit s\<close> is the rest of \<^term>\<open>s\<close> after the literal \<^term>\<open>lit\<close>.
\<close>

definition lower_char :: "char \<Rightarrow> char" where
  "lower_char c =
     (let n = (of_char c :: nat) in if 65 \<le> n \<and> n \<le> 90 then char_of (n + 32) else c)"

fun prefix_ci :: "string \<Rightarrow> string \<Rightarrow> string option" where
  "prefix_ci [] s = Some s"
| "prefix_ci (p # ps) [] = None"
| "prefix_ci (p # ps) (c # cs) =
     (if lower_char p = lower_char c then prefix_ci ps cs else None)"

text \<open>
  The end of the pattern, \<^verbatim>\<open>"?([^";]+)"?\<close>: an optional quote, then the longest run of
  characters other than the quote and the semicolon, which must not be empty. The group
  cannot start at a quote, so giving the optional quote back does not help.
\<close>

definition cd_name :: "string \<Rightarrow> string option" where
  "cd_name s =
     (let r = (case s of c # cs \<Rightarrow> if c = char_of (34 :: nat) then cs else s | [] \<Rightarrow> s);
          g = takeWhile (\<lambda>c. c \<noteq> char_of (34 :: nat) \<and> c \<noteq> CHR '';'') r
      in if g = [] then None else Some g)"

text \<open>
  The pattern \<^verbatim>\<open>filename\*?=(?:UTF-8'')?"?([^";]+)"?\<close> at the start of a string: the group,
  when it matches. The optional encoding prefix is tried first and given back when the
  rest does not match after it.
\<close>

definition cd_group :: "string \<Rightarrow> string option" where
  "cd_group s =
     (case prefix_ci ''filename'' s of
        None \<Rightarrow> None
      | Some r0 \<Rightarrow>
          (let r1 = (case r0 of c # cs \<Rightarrow> if c = CHR ''*'' then cs else r0 | [] \<Rightarrow> r0)
           in case r1 of
                [] \<Rightarrow> None
              | c # r2 \<Rightarrow>
                  if c \<noteq> CHR ''='' then None
                  else (case prefix_ci (''UTF-8'' @ [char_of (39 :: nat), char_of (39 :: nat)]) r2 of
                          None \<Rightarrow> cd_name r2
                        | Some r3 \<Rightarrow>
                            (case cd_name r3 of Some g \<Rightarrow> Some g | None \<Rightarrow> cd_name r2))))"

text \<open>\<^verbatim>\<open>re.search\<close>: the match that starts first.\<close>

fun cd_search :: "string \<Rightarrow> string option" where
  "cd_search [] = None"
| "cd_search (c # cs) =
     (case cd_group (c # cs) of Some g \<Rightarrow> Some g | None \<Rightarrow> cd_search cs)"

text \<open>
  \<^verbatim>\<open>fetch_real_filename\<close>. Every exception inside is caught and gives \<^verbatim>\<open>None\<close>; a URL that
  is not a string makes \<^verbatim>\<open>requests.head\<close> raise.
\<close>

definition fetch_real_filename :: "world \<Rightarrow> json \<Rightarrow> string option" where
  "fetch_real_filename w file_url =
     (case file_url of
        JStr u \<Rightarrow>
          (case http_head w u of
             Inl e \<Rightarrow> None
           | Inr None \<Rightarrow> None
           | Inr (Some cd) \<Rightarrow>
               if cd = [] then None
               else (case cd_search cd of
                       None \<Rightarrow> None
                     | Some g \<Rightarrow> Some (unquote w (strip g))))
      | _ \<Rightarrow> None)"

section \<open>Field normalizer\<close>

definition TARGET_FIELDS :: "string list" where
  "TARGET_FIELDS =
     [''Type'', ''Published'', ''Base Model'', ''Usage Tips'', ''Trigger Words'', ''Hash'',
      ''File Name'']"

text \<open>\<^verbatim>\<open>{k: "" for k in TARGET_FIELDS}\<close>.\<close>

definition empty_fields :: "string \<Rightarrow> string option" where
  "empty_fields = map_of (map (\<lambda>k. (k, [])) TARGET_FIELDS)"

text \<open>
  \<^verbatim>\<open>build_usage_tips\<close>: the list \<^verbatim>\<open>parts\<close>, then the function. An f-string renders a value
  as \<^verbatim>\<open>str\<close> does.
\<close>

definition usage_parts :: "json \<Rightarrow> json \<Rightarrow> json \<Rightarrow> json \<Rightarrow> string list" where
  "usage_parts clip_skip strength min_s max_s =
     (if clip_skip \<noteq> JNull then [''CLIP SKIP: '' @ py_str clip_skip] else [])
     @ (if strength \<noteq> JNull then
          (if min_s \<noteq> JNull \<or> max_s \<noteq> JNull then
             [''STRENGTH: '' @ py_str strength @ '' (''
              @ join '', ''
                  ((if min_s \<noteq> JNull then [''min '' @ py_str min_s] else [])
                   @ (if max_s \<noteq> JNull then [''max '' @ py_str max_s] else []))
              @ '')'']
           else [''STRENGTH: '' @ py_str strength])
        else [])"

definition build_usage_tips :: "json \<Rightarrow> py_error + string" where
  "build_usage_tips version =
     (case get version ''clipSkip'' of
        Inl e \<Rightarrow> Inl e
      | Inr clip_skip \<Rightarrow>
          (case get version ''settings'' of
             Inl e \<Rightarrow> Inl e
           | Inr s0 \<Rightarrow>
               (case get (py_or s0 (JDict [])) ''strength'' of
                  Inl e \<Rightarrow> Inl e
                | Inr strength \<Rightarrow>
                    (case get (py_or s0 (JDict [])) ''minStrength'' of
                       Inl e \<Rightarrow> Inl e
                     | Inr min_s \<Rightarrow>
                         (case get (py_or s0 (JDict [])) ''maxStrength'' of
                            Inl e \<Rightarrow> Inl e
                          | Inr max_s \<Rightarrow>
                              Inr (join '' | '' (usage_parts clip_skip strength min_s max_s)))))))"

text \<open>
  The trigger words, from \<^verbatim>\<open>trained = version_data.get("trainedWords") or []\<close>: the
  stripped strings of a list's entries that are not empty, joined; the stripped string
  of any other value.
\<close>

definition trigger_words :: "json \<Rightarrow> string" where
  "trigger_words trained =
     (case trained of
        JList ws \<Rightarrow> join '', '' (filter (\<lambda>s. s \<noteq> []) (map (\<lambda>x. strip (py_str x)) ws))
      | _ \<Rightarrow> strip (py_str trained))"

text \<open>
  The inner loop over the hash records for one preferred type \<^verbatim>\<open>t\<close>: the first dictionary
  whose type in upper case is \<^verbatim>\<open>t.upper()\<close> and whose hash is true gives the chosen type
  and the stripped hash, and ends the loop.
\<close>

fun find_hash :: "string \<Rightarrow> json list \<Rightarrow> (string \<times> string) option" where
  "find_hash t [] = None"
| "find_hash t (h # hs) =
     (case h of
        JDict d \<Rightarrow>
          if upper (py_str (py_or (dict_get d ''type'') (JStr []))) = upper t
             \<and> truthy (dict_get d ''hash'')
          then Some (upper (py_str (py_or (dict_get d ''type'') (JStr []))),
                     strip (py_str (dict_get d ''hash'')))
          else find_hash t hs
      | _ \<Rightarrow> find_hash t hs)"

text \<open>
  The outer loop over \<^verbatim>\<open>preferred_order\<close>, with the pair \<^verbatim>\<open>(chosen_type, chosen_hash)\<close>: it
  ends as soon as \<^verbatim>\<open>chosen_hash\<close> is not empty.
\<close>

fun scan_preferred :: "string list \<Rightarrow> json list \<Rightarrow> string \<times> string \<Rightarrow> string \<times> string" where
  "scan_preferred [] hs chosen = chosen"
| "scan_preferred (t # ts) hs chosen =
     (let chosen' = (case find_hash t hs of None \<Rightarrow> chosen | Some c \<Rightarrow> c)
      in if snd chosen' \<noteq> [] then chosen' else scan_preferred ts hs chosen')"

definition preferred_order :: "string list" where
  "preferred_order = [''AUTOV2'', ''AutoV2'', ''SHA256'', ''SHA1'', ''CRC32'']"

text \<open>
  The hash of a model file, from \<^verbatim>\<open>raw_hashes = f.get("hashes") or []\<close>, up to the final
  \<^verbatim>\<open>hash_value\<close>.
\<close>

definition resolve_hash :: "json \<Rightarrow> string" where
  "resolve_hash raw_hashes =
     (let (hash_type, auto_v2) =
            (case raw_hashes of
               JDict d \<Rightarrow>
                 (''AUTOV2'',
                  strip (py_str (py_or (dict_get d ''AutoV2'')
                                   (py_or (dict_get d ''AUTOV2'') (JStr [])))))
             | JList hs \<Rightarrow>
                 (let chosen = scan_preferred preferred_order hs ([], [])
                  in if snd chosen \<noteq> [] then chosen else (''AUTOV2'', []))
             | _ \<Rightarrow> (''AUTOV2'', []))
      in if auto_v2 \<noteq> [] then hash_type @ '' | '' @ auto_v2 else [])"

text \<open>The file name of a model file, given as its dictionary.\<close>

definition model_file_name :: "world \<Rightarrow> (string \<times> json) list \<Rightarrow> string" where
  "model_file_name w f =
     (if truthy (dict_get f ''url'') then
        (case fetch_real_filename w (dict_get f ''url'') of
           None \<Rightarrow> strip (py_str (py_or (dict_get f ''name'') (JStr [])))
         | Some real_name \<Rightarrow>
             if real_name \<noteq> [] then real_name
             else strip (py_str (py_or (dict_get f ''name'') (JStr []))))
      else [])"

text \<open>The test that makes a file the model file.\<close>

definition is_model_type :: "json \<Rightarrow> bool" where
  "is_model_type t = (t = JStr ''Model'' \<or> t = JStr ''model'')"

text \<open>
  The loop over the files: the pair \<^verbatim>\<open>(hash_value, file_name)\<close> at its end. The first file
  that passes the test is processed and the loop is left with \<^verbatim>\<open>break\<close>.
\<close>

fun scan_files :: "world \<Rightarrow> json list \<Rightarrow> py_error + string \<times> string" where
  "scan_files w [] = Inr ([], [])"
| "scan_files w (f # fs) =
     (case f of
        JDict d \<Rightarrow>
          if is_model_type (dict_get d ''type'')
          then Inr (resolve_hash (py_or (dict_get d ''hashes'') (JList [])), model_file_name w d)
          else scan_files w fs
      | _ \<Rightarrow> Inl AttributeError)"

text \<open>
  \<^verbatim>\<open>extract_fields\<close>. An argument is \<^const>\<open>None\<close> or a value; the first \<^verbatim>\<open>.get\<close> on a value
  that is true and not a dictionary raises AttributeError.
\<close>

definition extract_fields ::
  "world \<Rightarrow> json option \<Rightarrow> json option \<Rightarrow> py_error + (string \<Rightarrow> string option)" where
  "extract_fields w model_data version_data =
     (case model_data of
        None \<Rightarrow> Inr empty_fields
      | Some md \<Rightarrow>
          if \<not> truthy md then Inr empty_fields
          else (case md of
             JDict m \<Rightarrow>
               (let r1 = empty_fields
                      (''Type'' \<mapsto> strip (py_str (py_or (dict_get m ''type'') (JStr []))))
                in case version_data of
                     None \<Rightarrow> Inr r1
                   | Some vd \<Rightarrow>
                       if \<not> truthy vd then Inr r1
                       else (case vd of
                          JDict v \<Rightarrow>
                            (let r2 = r1
                                   (''Published'' \<mapsto> strip (py_str
                                      (py_or (dict_get v ''publishedAt'')
                                         (py_or (dict_get m ''publishedAt'') (JStr [])))),
                                    ''Base Model'' \<mapsto> strip (py_str
                                      (py_or (dict_get v ''baseModel'')
                                         (py_or (dict_get v ''baseModelType'') (JStr [])))),
                                    ''Trigger Words'' \<mapsto> trigger_words
                                      (py_or (dict_get v ''trainedWords'') (JList [])))
                             in case build_usage_tips vd of
                                  Inl e \<Rightarrow> Inl e
                                | Inr tips \<Rightarrow>
                                    (case py_iter (py_or (dict_get v ''files'') (JList [])) of
                                       Inl e \<Rightarrow> Inl e
                                     | Inr files \<Rightarrow>
                                         (case scan_files w files of
                                            Inl e \<Rightarrow> Inl e
                                          | Inr hn \<Rightarrow>
                                              Inr (r2(''Usage Tips'' \<mapsto> tips,
                                                      ''Hash'' \<mapsto> fst hn,
                                                      ''File Name'' \<mapsto> snd hn)))))
                        | _ \<Rightarrow> Inl AttributeError))
           | _ \<Rightarrow> Inl AttributeError))"

text \<open>
  What the two loops compute, in closed form. For a type, only the first record of the
  type (compared in upper case) whose hash is true is read, and its hash is stripped;
  the types are tried in the order AUTOV2, SHA256, SHA1, CRC32 and the first type for
  which this gives a string that is not empty gives the result.
\<close>

definition first_hash_of_type :: "string \<Rightarrow> json list \<Rightarrow> string" where
  "first_hash_of_type t hs =
     (case find (\<lambda>h. case h of
                     JDict d \<Rightarrow> upper (py_str (py_or (dict_get d ''type'') (JStr []))) = t
                                \<and> truthy (dict_get d ''hash'')
                   | _ \<Rightarrow> False) hs of
        Some (JDict d) \<Rightarrow> strip (py_str (dict_get d ''hash''))
      | _ \<Rightarrow> [])"

definition scanned_hash :: "json list \<Rightarrow> string" where
  "scanned_hash hs =
     (case find (\<lambda>t. first_hash_of_type t hs \<noteq> []) [''AUTOV2'', ''SHA256'', ''SHA1'', ''CRC32''] of
        None \<Rightarrow> []
      | Some t \<Rightarrow> t @ '' | '' @ first_hash_of_type t hs)"

text \<open>
  The hash of a list of hash records as the specification words it: the types are taken
  in the order AUTOV2, SHA256, SHA1, CRC32; under each type come the hashes of the
  records of that type, compared without regard to case, in the order of the list; the
  first hash of this sequence that is not empty is rendered after its type and a bar.
  A hash is read as its stripped string, and a hash that is absent as the empty string.
\<close>

definition typed_hashes :: "string \<Rightarrow> json list \<Rightarrow> string list" where
  "typed_hashes t hs =
     List.map_filter
       (\<lambda>h. case h of
              JDict d \<Rightarrow>
                if upper (py_str (py_or (dict_get d ''type'') (JStr []))) = t
                then Some (strip (py_str (py_or (dict_get d ''hash'') (JStr []))))
                else None
            | _ \<Rightarrow> None) hs"

definition claimed_hash :: "json list \<Rightarrow> string" where
  "claimed_hash hs =
     (case concat (map (\<lambda>t. map (\<lambda>v. t @ '' | '' @ v)
                               (filter (\<lambda>v. v \<noteq> []) (typed_hashes t hs)))
                       [''AUTOV2'', ''SHA256'', ''SHA1'', ''CRC32'']) of
        [] \<Rightarrow> []
      | r # rs \<Rightarrow> r)"

text \<open>No record of the list has a hash that is true and blank.\<close>

definition no_blank_hash :: "json list \<Rightarrow> bool" where
  "no_blank_hash hs =
     list_all (\<lambda>h. case h of
                     JDict d \<Rightarrow> \<not> truthy (dict_get d ''hash'')
                                \<or> strip (py_str (dict_get d ''hash'')) \<noteq> []
                   | _ \<Rightarrow> True) hs"

text \<open>No file of the list is the model file, and none raises.\<close>

definition skipped :: "json list \<Rightarrow> bool" where
  "skipped pre =
     list_all (\<lambda>p. case p of JDict d \<Rightarrow> \<not> is_model_type (dict_get d ''type'') | _ \<Rightarrow> False) pre"

text \<open>Inputs of the examples: a model, and a version around a list of files.\<close>

definition a_model :: "(string \<times> json) list" where
  "a_model = [(''id'', JInt 7), (''type'', JStr ''LORA'')]"

definition version_with :: "json list \<Rightarrow> (string \<times> json) list" where
  "version_with files = [(''id'', JInt 1), (''files'', JList files)]"

definition file_of :: "string \<Rightarrow> json \<Rightarrow> (string \<times> json) list" where
  "file_of t hashes = [(''type'', JStr t), (''name'', JStr ''a.safetensors''), (''hashes'', hashes)]"

definition hash_record :: "string \<Rightarrow> string \<Rightarrow> json" where
  "hash_record t h = JDict [(''type'', JStr t), (''hash'', JStr h)]"

text \<open>Hash records of which the first has a blank hash.\<close>

definition blank_first :: "json list" where
  "blank_first = [hash_record ''AutoV2'' '' '', hash_record ''AUTOV2'' ''y'']"

definition blank_first_crc :: "json list" where
  "blank_first_crc =
     [hash_record ''AutoV2'' '' '', hash_record ''AUTOV2'' ''y'', hash_record ''crc32'' ''c'']"

text \<open>
  The value of a key in the mapping a call returned; \<^const>\<open>None\<close> when the call raised or
  the mapping has no such key.
\<close>

definition field :: "py_error + (string \<Rightarrow> string option) \<Rightarrow> string \<Rightarrow> string option" where
  "field res k = (case res of Inl e \<Rightarrow> None | Inr r \<Rightarrow> r k)"

text \<open>
  The values of \<^verbatim>\<open>json.loads\<close> at the documents of the examples: the empty object, and an
  object with one member. The other documents of the examples, a lone opening brace and
  a document whose quotes are written as entities, are rejected by \<^verbatim>\<open>json.loads\<close>. No
  example decodes any further document.
\<close>

definition example_loads :: "string \<Rightarrow> json option" where
  "example_loads s =
     (if s = ''{}'' then Some (JDict [])
      else if s = [CHR ''{'', char_of (34 :: nat), CHR ''a'', char_of (34 :: nat), CHR '':'',
                   CHR '' '', CHR ''1'', CHR ''}'']
        then Some (JDict [(''a'', JInt 1)])
      else None)"

text \<open>A machine without network: every request fails.\<close>

definition offline :: world where
  "offline =
     \<lparr>http_get = (\<lambda>u. Inl TransportError), http_head = (\<lambda>u. Inl TransportError),
      json_loads = example_loads, unquote = (\<lambda>s. s), soup_imgs = (\<lambda>h. Some [])\<rparr>"

section \<open>Identifier parser\<close>





section \<open>Embedded-state locator\<close>

text \<open>
  The text before the first occurrence of a literal in a string, compared without regard
  to case; \<^const>\<open>None\<close> when the literal does not occur.
\<close>

fun find_ci :: "string \<Rightarrow> string \<Rightarrow> string option" where
  "find_ci lit [] = (case prefix_ci lit [] of Some r \<Rightarrow> Some [] | None \<Rightarrow> None)"
| "find_ci lit (c # cs) =
     (case prefix_ci lit (c # cs) of
        Some r \<Rightarrow> Some []
      | None \<Rightarrow> (case find_ci lit cs of Some b \<Rightarrow> Some (c # b) | None \<Rightarrow> None))"

text \<open>
  The pattern \<^verbatim>\<open><script[^>]+id="__NEXT_DATA__"[^>]*>(.*?)</script>\<close> at the start of a string,
  under \<^verbatim>\<open>re.DOTALL | re.IGNORECASE\<close>. After the tag name comes the longest run of
  characters other than \<^verbatim>\<open>>\<close>; the \<^verbatim>\<open>id\<close> attribute must occur in this run after at least one
  character, and the run must end at a \<^verbatim>\<open>>\<close>. The group is the shortest text from there up
  to a closing tag.
\<close>

definition script_group :: "string \<Rightarrow> string option" where
  "script_group s =
     (case prefix_ci ''<script'' s of
        None \<Rightarrow> None
      | Some r \<Rightarrow>
          (let attrs = takeWhile (\<lambda>c. c \<noteq> CHR ''>'') r;
               rest = dropWhile (\<lambda>c. c \<noteq> CHR ''>'') r
           in if attrs = [] \<or> rest = []
                 \<or> find_ci (''id='' @ [char_of (34 :: nat)] @ ''__NEXT_DATA__''
                              @ [char_of (34 :: nat)]) (tl attrs) = None
              then None
              else find_ci ''</script>'' (tl rest)))"

fun script_search :: "string \<Rightarrow> string option" where
  "script_search [] = None"
| "script_search (c # cs) =
     (case script_group (c # cs) of Some g \<Rightarrow> Some g | None \<Rightarrow> script_search cs)"

text \<open>\<^verbatim>\<open>raw.replace("&quot;", '"')\<close>: every occurrence, from left to right.\<close>

function replace_quot :: "string \<Rightarrow> string" where
  "replace_quot [] = []"
| "replace_quot (c # cs) =
     (if take 6 (c # cs) = ''&quot;'' then char_of (34 :: nat) # replace_quot (drop 5 cs)
      else c # replace_quot cs)"
  by pat_completeness auto
termination
  by (relation "measure length") auto

text \<open>
  \<^verbatim>\<open>extract_next_data\<close>. The value \<^verbatim>\<open>None\<close> is \<^const>\<open>JNull\<close>, which is also what the document
  \<^verbatim>\<open>null\<close> decodes to. The second \<^verbatim>\<open>json.loads\<close> is outside any \<^verbatim>\<open>try\<close>.
\<close>

definition extract_next_data :: "world \<Rightarrow> string \<Rightarrow> py_error + json" where
  "extract_next_data w html =
     (case script_search html of
        None \<Rightarrow> Inr JNull
      | Some g \<Rightarrow>
          (case json_loads w (strip g) of
             Some j \<Rightarrow> Inr j
           | None \<Rightarrow>
               (case json_loads w (replace_quot (strip g)) of
                  Some j \<Rightarrow> Inr j
                | None \<Rightarrow> Inl JSONDecodeError)))"

section \<open>Preview resolver\<close>









section \<open>Pipeline\<close>





definition entity_page :: string where
  "entity_page =
     ''<html><script id='' @ [char_of (34 :: nat)] @ ''__NEXT_DATA__'' @ [char_of (34 :: nat)]
     @ '' type=x> {&quot;a&quot;: 1} </script></html>''"

definition broken_page :: string where
  "broken_page =
     ''<script id='' @ [char_of (34 :: nat)] @ ''__NEXT_DATA__'' @ [char_of (34 :: nat)]
     @ ''>{</script>''"


text \<open>Two more pages: one without any element, one whose embedded state is plain JSON.\<close>

definition bare_page :: string where
  "bare_page = ''<html></html>''"

definition plain_page :: string where
  "plain_page =
     ''<SCRIPT defer ID='' @ [char_of (34 :: nat)] @ ''__NEXT_DATA__'' @ [char_of (34 :: nat)]
     @ ''>{}</Script>''"

section \<open>Properties of the query-record resolver\<close>

lemma candidates_Nil: "candidates [] = []"
  by (simp add: candidates_def)

lemma candidates_skip: "query_data q = Inr None \<Longrightarrow> candidates (q # qs) = candidates qs"
  by (simp add: candidates_def)

lemma candidates_keep: "query_data q = Inr (Some d) \<Longrightarrow> candidates (q # qs) = d # candidates qs"
  by (simp add: candidates_def)

lemma descriptors_ok_Cons:
  "descriptors_ok (q # qs) \<Longrightarrow> descriptors_ok qs \<and> (\<exists>r. query_data q = Inr r)"
  by (auto simp: descriptors_ok_def split: sum.splits)

lemma scan_queries_no_id:
  "descriptors_ok qs \<Longrightarrow>
   scan_queries None c qs = Inr (case candidates qs of [] \<Rightarrow> c | d # ds \<Rightarrow> Some d)"
proof (induction qs)
  case Nil
  show ?case by (simp add: candidates_Nil)
next
  case (Cons q qs)
  from descriptors_ok_Cons [OF Cons.prems] obtain r
    where ok: "descriptors_ok qs" and r: "query_data q = Inr r" by blast
  show ?case
  proof (cases r)
    case None
    with r Cons.IH [OF ok] show ?thesis
      by (simp add: candidates_skip)
  next
    case (Some d)
    with r show ?thesis
      by (simp add: candidates_keep)
  qed
qed

lemma scan_queries_with_id:
  "descriptors_ok qs \<Longrightarrow>
   scan_queries (Some m) c qs =
     Inr (case find (id_accepted (Some m)) (candidates qs) of
            Some d \<Rightarrow> Some d
          | None \<Rightarrow> (if candidates qs = [] then c else Some (last (candidates qs))))"
proof (induction qs arbitrary: c)
  case Nil
  show ?case by (simp add: candidates_Nil)
next
  case (Cons q qs)
  from descriptors_ok_Cons [OF Cons.prems] obtain r
    where ok: "descriptors_ok qs" and r: "query_data q = Inr r" by blast
  show ?case
  proof (cases r)
    case None
    have cs: "candidates (q # qs) = candidates qs"
      using r None by (simp add: candidates_skip)
    from r None have "scan_queries (Some m) c (q # qs) = scan_queries (Some m) c qs"
      by simp
    then show ?thesis
      unfolding cs using Cons.IH [OF ok, of c] by simp
  next
    case (Some d)
    have cs: "candidates (q # qs) = d # candidates qs"
      using r Some by (simp add: candidates_keep)
    show ?thesis
    proof (cases "id_accepted (Some m) d")
      case True
      with r Some show ?thesis unfolding cs by simp
    next
      case False
      with r Some have "scan_queries (Some m) c (q # qs) = scan_queries (Some m) (Some d) qs"
        by simp
      then show ?thesis
        unfolding cs using False Cons.IH [OF ok, of "Some d"]
        by (simp split: option.splits)
    qed
  qed
qed

text \<open>
  C1, as the claim states it, at the embedded state \<^term>\<open>state_of two_queries\<close> and no
  target id: the claim makes the resolver return the last candidate (id 2). The resolver
  returns the first one (id 1), because \<^verbatim>\<open>model_id is None\<close> accepts every candidate.
\<close>

theorem find_model_no_id_counterexample:
  "candidates two_queries = [JDict [(''id'', JInt 1)], JDict [(''id'', JInt 2)]]
   \<and> find_model_from_trpc (state_of two_queries) None = Inr (Some (JDict [(''id'', JInt 1)]))
   \<and> find_model_from_trpc (state_of two_queries) None
       \<noteq> Inr (Some (last (candidates two_queries)))"
  by (simp add: find_model_from_trpc_def trpc_queries_def state_of_def two_queries_def
      query_of_def query_data_def candidates_def dict_get_def)

text \<open>
  C1, amended: for every embedded state whose \<^verbatim>\<open>queries\<close> list has at least one candidate
  and no descriptor that raises, \<^verbatim>\<open>find_model_from_trpc\<close> returns, when no target id is
  supplied, the first candidate of the in-order scan; when a target id is supplied, the
  first candidate whose \<^verbatim>\<open>data.id\<close> equals it, and the last candidate when none matches.
\<close>

theorem find_model_from_trpc_selection:
  assumes "trpc_queries next_data = Some (JList qs)"
    and "descriptors_ok qs"
    and "candidates qs \<noteq> []"
  shows "find_model_from_trpc next_data None = Inr (Some (hd (candidates qs)))
       \<and> find_model_from_trpc next_data (Some m) =
           Inr (Some (case find (\<lambda>d. id_accepted (Some m) d) (candidates qs) of
                        Some d \<Rightarrow> d
                      | None \<Rightarrow> last (candidates qs)))"
proof
  from assms(3) obtain d ds where cs: "candidates qs = d # ds"
    by (cases "candidates qs") auto
  show "find_model_from_trpc next_data None = Inr (Some (hd (candidates qs)))"
    using assms(1) scan_queries_no_id [OF assms(2), of None] cs
    by (simp add: find_model_from_trpc_def)
  show "find_model_from_trpc next_data (Some m) =
           Inr (Some (case find (\<lambda>d. id_accepted (Some m) d) (candidates qs) of
                        Some d \<Rightarrow> d
                      | None \<Rightarrow> last (candidates qs)))"
    using assms(1) assms(3) scan_queries_with_id [OF assms(2), of m None]
    by (simp add: find_model_from_trpc_def split: option.splits)
qed

lemma two_queries_path: "trpc_queries (state_of two_queries) = Some (JList two_queries)"
  by (simp add: trpc_queries_def state_of_def)

lemma two_queries_candidates:
  "candidates two_queries = [JDict [(''id'', JInt 1)], JDict [(''id'', JInt 2)]]"
  by (simp add: two_queries_def query_of_def query_data_def candidates_def dict_get_def)

lemma two_queries_ok: "descriptors_ok two_queries"
  by (simp add: two_queries_def query_of_def query_data_def descriptors_ok_def dict_get_def)

theorem find_model_from_trpc_selection_witness:
  "find_model_from_trpc (state_of two_queries) None = Inr (Some (JDict [(''id'', JInt 1)]))
   \<and> find_model_from_trpc (state_of two_queries) (Some 2) = Inr (Some (JDict [(''id'', JInt 2)]))
   \<and> find_model_from_trpc (state_of two_queries) (Some 7) = Inr (Some (JDict [(''id'', JInt 2)]))"
  using find_model_from_trpc_selection [OF two_queries_path two_queries_ok, of 2]
    find_model_from_trpc_selection [OF two_queries_path two_queries_ok, of 7]
  by (simp add: two_queries_candidates dict_get_def)

section \<open>Properties of the version selector\<close>

lemma search_version_first:
  "i < length xs \<Longrightarrow> version_id_matches n (xs ! i) \<Longrightarrow>
   (\<forall>j<i. \<not> version_id_matches n (xs ! j)) \<Longrightarrow> search_version n xs = Some (xs ! i)"
proof (induction xs arbitrary: i)
  case Nil
  then show ?case by simp
next
  case (Cons x xs)
  show ?case
  proof (cases i)
    case 0
    with Cons.prems show ?thesis by simp
  next
    case (Suc k)
    from Cons.prems(3) Suc have x: "\<not> version_id_matches n x" by auto
    from Cons.prems(3) Suc have "\<forall>j<k. \<not> version_id_matches n (xs ! j)" by auto
    with Cons.IH [of k] Cons.prems(1,2) Suc x show ?thesis by simp
  qed
qed

lemma search_version_none:
  "(\<forall>v\<in>set xs. \<not> version_id_matches n v) \<Longrightarrow> search_version n xs = None"
  by (induction xs) auto

lemma with_keys_zip:
  "map published_ts xs = map Inr ks \<Longrightarrow> with_keys xs = Inr (zip ks xs)"
proof (induction xs arbitrary: ks)
  case Nil
  then show ?case by simp
next
  case (Cons x xs)
  then obtain k ks' where ks: "ks = k # ks'" by (cases ks) auto
  with Cons.prems have "published_ts x = Inr k" and "map published_ts xs = map Inr ks'"
    by auto
  with Cons.IH [of ks'] ks show ?case by simp
qed

text \<open>The sort puts the keys in descending order and keeps the elements.\<close>

lemma set_insert_desc: "set (insert_desc x ys) = insert x (set ys)"
  by (induction ys) auto

lemma sorted_insert_desc:
  "sorted_wrt (\<lambda>a b. fst b \<le> fst a) ys \<Longrightarrow> sorted_wrt (\<lambda>a b. fst b \<le> fst a) (insert_desc x ys)"
  by (induction ys) (auto simp: set_insert_desc)

lemma sorted_desc_Cons: "sorted_desc (x # xs) = insert_desc x (sorted_desc xs)"
  by (simp add: sorted_desc_def)

lemma sorted_desc_descending: "sorted_wrt (\<lambda>a b. fst b \<le> fst a) (sorted_desc kvs)"
proof (induction kvs)
  case Nil
  show ?case by (simp add: sorted_desc_def)
next
  case (Cons x xs)
  then show ?case by (simp add: sorted_desc_Cons sorted_insert_desc)
qed

lemma length_insert_desc: "length (insert_desc x ys) = Suc (length ys)"
  by (induction ys) auto

lemma sorted_desc_same_elements:
  "set (sorted_desc kvs) = set kvs \<and> length (sorted_desc kvs) = length kvs"
proof (induction kvs)
  case Nil
  show ?case by (simp add: sorted_desc_def)
next
  case (Cons x xs)
  then show ?case by (simp add: sorted_desc_Cons set_insert_desc length_insert_desc)
qed

text \<open>The sort is stable: the elements of one key keep their order.\<close>

lemma filter_insert_desc:
  "sorted_wrt (\<lambda>a b. fst b \<le> fst a) ys \<Longrightarrow>
   filter (\<lambda>y. fst y = k) (insert_desc x ys) = filter (\<lambda>y. fst y = k) (x # ys)"
proof (induction ys)
  case Nil
  show ?case by simp
next
  case (Cons y ys)
  then show ?case by auto
qed

lemma sorted_desc_stable:
  "filter (\<lambda>y. fst y = k) (sorted_desc kvs) = filter (\<lambda>y. fst y = k) kvs"
proof (induction kvs)
  case Nil
  show ?case by (simp add: sorted_desc_def)
next
  case (Cons x xs)
  have "filter (\<lambda>y. fst y = k) (sorted_desc (x # xs)) =
        filter (\<lambda>y. fst y = k) (x # sorted_desc xs)"
    unfolding sorted_desc_Cons by (rule filter_insert_desc [OF sorted_desc_descending])
  with Cons.IH show ?case by simp
qed

text \<open>The head of the sorted list: the first of the elements with the greatest key.\<close>

lemma hd_insert_desc:
  "hd (insert_desc x ys) = (if ys = [] then x else if fst x < fst (hd ys) then hd ys else x)"
  by (cases ys) auto

lemma sorted_desc_empty: "sorted_desc kvs = [] \<longleftrightarrow> kvs = []"
  using sorted_desc_same_elements [of kvs] by auto

lemma hd_sorted_desc:
  "kvs \<noteq> [] \<Longrightarrow>
   \<exists>i<length kvs. hd (sorted_desc kvs) = kvs ! i
     \<and> (\<forall>j<length kvs. fst (kvs ! j) \<le> fst (kvs ! i))
     \<and> (\<forall>j<i. fst (kvs ! j) < fst (kvs ! i))"
proof (induction kvs)
  case Nil
  then show ?case by simp
next
  case (Cons x ys)
  show ?case
  proof (cases "ys = []")
    case True
    then show ?thesis by (simp add: sorted_desc_def)
  next
    case False
    from Cons.IH [OF False] obtain i where i: "i < length ys"
      and h: "hd (sorted_desc ys) = ys ! i"
      and mx: "\<forall>j<length ys. fst (ys ! j) \<le> fst (ys ! i)"
      and fs: "\<forall>j<i. fst (ys ! j) < fst (ys ! i)" by blast
    have ne: "sorted_desc ys \<noteq> []" using False by (simp add: sorted_desc_empty)
    show ?thesis
    proof (cases "fst x < fst (ys ! i)")
      case True
      have "hd (sorted_desc (x # ys)) = (x # ys) ! Suc i"
        using True h ne by (simp add: sorted_desc_Cons hd_insert_desc)
      moreover have "\<forall>j<length (x # ys). fst ((x # ys) ! j) \<le> fst ((x # ys) ! Suc i)"
      proof (intro allI impI)
        fix j assume "j < length (x # ys)"
        then show "fst ((x # ys) ! j) \<le> fst ((x # ys) ! Suc i)"
          using True mx by (cases j) auto
      qed
      moreover have "\<forall>j<Suc i. fst ((x # ys) ! j) < fst ((x # ys) ! Suc i)"
      proof (intro allI impI)
        fix j assume "j < Suc i"
        then show "fst ((x # ys) ! j) < fst ((x # ys) ! Suc i)"
          using True fs by (cases j) auto
      qed
      ultimately show ?thesis using i by (intro exI [of _ "Suc i"]) simp
    next
      case False
      have "hd (sorted_desc (x # ys)) = (x # ys) ! 0"
        using False h ne by (simp add: sorted_desc_Cons hd_insert_desc)
      moreover have "\<forall>j<length (x # ys). fst ((x # ys) ! j) \<le> fst ((x # ys) ! 0)"
      proof (intro allI impI)
        fix j assume j: "j < length (x # ys)"
        show "fst ((x # ys) ! j) \<le> fst ((x # ys) ! 0)"
        proof (cases j)
          case 0
          then show ?thesis by simp
        next
          case (Suc k)
          with j mx have "fst (ys ! k) \<le> fst (ys ! i)" by simp
          with False Suc show ?thesis by simp
        qed
      qed
      ultimately show ?thesis by (intro exI [of _ 0]) simp
    qed
  qed
qed

lemma choose_model_version_sorted:
  assumes "get model_data ''modelVersions'' = Inr (JList xs)"
    and "xs \<noteq> []"
    and "map published_ts xs = map Inr ks"
    and "version_id = None \<or> (\<exists>n. version_id = Some n \<and> (\<forall>v\<in>set xs. \<not> version_id_matches n v))"
  shows "\<exists>i<length xs. choose_model_version model_data version_id = Inr (Some (xs ! i))
           \<and> (\<forall>j<length xs. ks ! j \<le> ks ! i) \<and> (\<forall>j<i. ks ! j < ks ! i)"
proof -
  from assms(3) have len: "length ks = length xs"
    using map_eq_imp_length_eq by fastforce
  from assms(2) len have ne: "zip ks xs \<noteq> []" by (cases xs; cases ks) auto
  from hd_sorted_desc [OF ne] obtain i where i: "i < length (zip ks xs)"
    and h: "hd (sorted_desc (zip ks xs)) = zip ks xs ! i"
    and mx: "\<forall>j<length (zip ks xs). fst (zip ks xs ! j) \<le> fst (zip ks xs ! i)"
    and fs: "\<forall>j<i. fst (zip ks xs ! j) < fst (zip ks xs ! i)" by blast
  from i len have i': "i < length xs" by simp
  from assms(4) have no: "(case version_id of None \<Rightarrow> None | Some n \<Rightarrow> search_version n xs) = None"
    by (auto simp: search_version_none)
  obtain v vs where xs: "xs = v # vs" using assms(2) by (cases xs) auto
  have "choose_model_version model_data version_id = Inr (Some (snd (hd (sorted_desc (zip ks xs)))))"
    using assms(1) no with_keys_zip [OF assms(3)] unfolding xs
    by (simp add: choose_model_version_def)
  with h i' len have "choose_model_version model_data version_id = Inr (Some (xs ! i))"
    by simp
  moreover have "\<forall>j<length xs. ks ! j \<le> ks ! i"
    using mx i' len by simp
  moreover have "\<forall>j<i. ks ! j < ks ! i"
    using fs i' len by simp
  ultimately show ?thesis using i' by blast
qed

section \<open>Properties of the field normalizer\<close>

lemma upper_preferred:
  "upper ''AUTOV2'' = ''AUTOV2''" "upper ''AutoV2'' = ''AUTOV2''"
  "upper ''SHA256'' = ''SHA256''" "upper ''SHA1'' = ''SHA1''" "upper ''CRC32'' = ''CRC32''"
  by code_simp+

lemma dom_empty_fields: "dom empty_fields = set TARGET_FIELDS"
  by (simp add: empty_fields_def dom_map_of_conv_image_fst image_image)

lemma extract_fields_version:
  assumes "m \<noteq> []" and "v \<noteq> []"
    and "build_usage_tips (JDict v) = Inr tips"
    and "py_iter (py_or (dict_get v ''files'') (JList [])) = Inr files"
    and "scan_files w files = Inr hn"
  shows "extract_fields w (Some (JDict m)) (Some (JDict v)) =
     Inr (empty_fields
       (''Type'' \<mapsto> strip (py_str (py_or (dict_get m ''type'') (JStr []))),
        ''Published'' \<mapsto> strip (py_str
           (py_or (dict_get v ''publishedAt'') (py_or (dict_get m ''publishedAt'') (JStr [])))),
        ''Base Model'' \<mapsto> strip (py_str
           (py_or (dict_get v ''baseModel'') (py_or (dict_get v ''baseModelType'') (JStr [])))),
        ''Trigger Words'' \<mapsto> trigger_words (py_or (dict_get v ''trainedWords'') (JList [])),
        ''Usage Tips'' \<mapsto> tips,
        ''Hash'' \<mapsto> fst hn,
        ''File Name'' \<mapsto> snd hn))"
  using assms by (simp add: extract_fields_def)

lemma scan_files_skipped: "skipped pre \<Longrightarrow> scan_files w (pre @ fs) = scan_files w fs"
proof (induction pre)
  case Nil
  show ?case by simp
next
  case (Cons p pre)
  then show ?case by (cases p) (simp_all add: skipped_def)
qed

lemma scan_files_first:
  assumes "skipped pre" and "is_model_type (dict_get f ''type'')"
  shows "scan_files w (pre @ JDict f # post) =
     Inr (resolve_hash (py_or (dict_get f ''hashes'') (JList [])), model_file_name w f)"
  using assms by (simp add: scan_files_skipped)

lemma extract_fields_model_file:
  assumes "m \<noteq> []"
    and "dict_get v ''files'' = JList (pre @ JDict f # post)"
    and "skipped pre" and "is_model_type (dict_get f ''type'')"
    and "build_usage_tips (JDict v) = Inr tips"
  shows "\<exists>r. extract_fields w (Some (JDict m)) (Some (JDict v)) = Inr r
     \<and> r ''Hash'' = Some (resolve_hash (py_or (dict_get f ''hashes'') (JList [])))
     \<and> r ''File Name'' = Some (model_file_name w f)"
proof -
  from assms(2) have v: "v \<noteq> []" by (auto simp: dict_get_def)
  have it: "py_iter (py_or (dict_get v ''files'') (JList [])) = Inr (pre @ JDict f # post)"
    using assms(2) by (simp add: py_or_def)
  show ?thesis
    using extract_fields_version [OF assms(1) v assms(5) it scan_files_first [OF assms(3,4)]]
    by simp
qed

text \<open>The inner loop finds the first record of the type that has a hash.\<close>

lemma find_hash_found:
  "find_hash t hs = Some c \<Longrightarrow> fst c = upper t \<and> snd c = first_hash_of_type (upper t) hs"
proof (induction hs)
  case Nil
  then show ?case by simp
next
  case (Cons h hs)
  then show ?case
    by (cases h) (auto simp: first_hash_of_type_def split: if_splits)
qed

lemma find_hash_none: "find_hash t hs = None \<Longrightarrow> first_hash_of_type (upper t) hs = []"
proof (induction hs)
  case Nil
  show ?case by (simp add: first_hash_of_type_def)
next
  case (Cons h hs)
  then show ?case
    by (cases h) (auto simp: first_hash_of_type_def split: if_splits)
qed

text \<open>The outer loop stops at the first preferred type with a hash that is not empty.\<close>

lemma scan_preferred_find:
  "snd chosen = [] \<Longrightarrow>
   (case find (\<lambda>t. first_hash_of_type (upper t) hs \<noteq> []) ts of
      None \<Rightarrow> snd (scan_preferred ts hs chosen) = []
    | Some t \<Rightarrow> scan_preferred ts hs chosen = (upper t, first_hash_of_type (upper t) hs))"
proof (induction ts arbitrary: chosen)
  case Nil
  then show ?case by simp
next
  case (Cons t ts)
  show ?case
  proof (cases "find_hash t hs")
    case None
    from find_hash_none [OF None] have e: "first_hash_of_type (upper t) hs = []" .
    from None Cons.prems
    have step: "scan_preferred (t # ts) hs chosen = scan_preferred ts hs chosen"
      by simp
    show ?thesis
      unfolding step using e Cons.IH [OF Cons.prems] by simp
  next
    case (Some c)
    from find_hash_found [OF Some]
    have c: "c = (upper t, first_hash_of_type (upper t) hs)" by (cases c) simp
    show ?thesis
    proof (cases "first_hash_of_type (upper t) hs = []")
      case True
      with Some c have step: "scan_preferred (t # ts) hs chosen = scan_preferred ts hs c"
        by simp
      from True c have "snd c = []" by simp
      then show ?thesis
        unfolding step using True Cons.IH [of c] by simp
    next
      case False
      with Some c show ?thesis by simp
    qed
  qed
qed

lemma resolve_hash_list: "resolve_hash (JList hs) = scanned_hash hs"
proof -
  let ?P = "\<lambda>t. first_hash_of_type (upper t) hs \<noteq> []"
  have s: "(case find ?P preferred_order of
      None \<Rightarrow> snd (scan_preferred preferred_order hs ([], [])) = []
    | Some t \<Rightarrow> scan_preferred preferred_order hs ([], []) = (upper t, first_hash_of_type (upper t) hs))"
    by (rule scan_preferred_find) simp
  show ?thesis
  proof (cases "find ?P preferred_order")
    case None
    with s have "snd (scan_preferred preferred_order hs ([], [])) = []" by simp
    then have l: "resolve_hash (JList hs) = []" by (simp add: resolve_hash_def)
    from None have "\<forall>t\<in>set preferred_order. first_hash_of_type (upper t) hs = []"
      by (simp add: find_None_iff)
    then have "scanned_hash hs = []"
      by (simp add: preferred_order_def upper_preferred scanned_hash_def)
    with l show ?thesis by simp
  next
    case (Some t)
    with s have r: "scan_preferred preferred_order hs ([], []) = (upper t, first_hash_of_type (upper t) hs)"
      by simp
    from Some have ne: "first_hash_of_type (upper t) hs \<noteq> []"
      by (auto simp: find_Some_iff)
    from r ne have l: "resolve_hash (JList hs) = upper t @ '' | '' @ first_hash_of_type (upper t) hs"
      by (simp add: resolve_hash_def)
    from Some have "scanned_hash hs = upper t @ '' | '' @ first_hash_of_type (upper t) hs"
      by (auto simp: preferred_order_def upper_preferred scanned_hash_def split: if_splits)
    with l show ?thesis by simp
  qed
qed

lemma resolve_hash_dict:
  "resolve_hash (py_or (JDict d) (JList [])) =
     (let a = strip (py_str (py_or (dict_get d ''AutoV2'')
                               (py_or (dict_get d ''AUTOV2'') (JStr []))))
      in if a = [] then [] else ''AUTOV2 | '' @ a)"
proof (cases "d = []")
  case True
  have "resolve_hash (JList []) = []"
    by (simp add: resolve_hash_def preferred_order_def)
  moreover have "strip (py_str (py_or (dict_get [] ''AutoV2'')
                               (py_or (dict_get [] ''AUTOV2'') (JStr [])))) = []"
    by (simp add: dict_get_def py_or_def strip_def)
  ultimately show ?thesis using True by (simp add: py_or_def)
next
  case False
  then show ?thesis by (simp add: py_or_def resolve_hash_def Let_def)
qed

lemma extract_fields_shapes:
  assumes "extract_fields w model_data version_data = Inr r"
  shows "r = empty_fields \<or> (\<exists>a. r = empty_fields(''Type'' \<mapsto> a))
     \<or> (\<exists>a b c d e f g. r = empty_fields(''Type'' \<mapsto> a, ''Published'' \<mapsto> b,
           ''Base Model'' \<mapsto> c, ''Trigger Words'' \<mapsto> d, ''Usage Tips'' \<mapsto> e,
           ''Hash'' \<mapsto> f, ''File Name'' \<mapsto> g))"
proof (cases model_data)
  case None
  with assms show ?thesis by (simp add: extract_fields_def)
next
  case (Some md)
  note md = Some
  show ?thesis
  proof (cases "truthy md")
    case False
    with assms md show ?thesis by (simp add: extract_fields_def)
  next
    case True
    note tmd = True
    from assms md tmd obtain m where m: "md = JDict m"
      by (cases md) (simp_all add: extract_fields_def)
    show ?thesis
    proof (cases version_data)
      case None
      with assms md tmd m show ?thesis by (auto simp: extract_fields_def)
    next
      case (Some vd)
      note vd = Some
      show ?thesis
      proof (cases "truthy vd")
        case False
        with assms md tmd m vd show ?thesis by (auto simp: extract_fields_def)
      next
        case True
        note tvd = True
        from assms md tmd m vd tvd obtain v where v: "vd = JDict v"
          by (cases vd) (simp_all add: extract_fields_def)
        from assms md tmd m vd tvd v obtain tips
          where tips: "build_usage_tips (JDict v) = Inr tips"
          by (cases "build_usage_tips (JDict v)") (simp_all add: extract_fields_def)
        from assms md tmd m vd tvd v tips obtain files
          where files: "py_iter (py_or (dict_get v ''files'') (JList [])) = Inr files"
          by (cases "py_iter (py_or (dict_get v ''files'') (JList []))")
            (simp_all add: extract_fields_def)
        from assms md tmd m vd tvd v tips files obtain hn
          where hn: "scan_files w files = Inr hn"
          by (cases "scan_files w files") (simp_all add: extract_fields_def)
        from tmd m have m': "m \<noteq> []" by simp
        from tvd v have v': "v \<noteq> []" by simp
        have "extract_fields w (Some (JDict m)) (Some (JDict v)) = Inr r"
          using assms md m vd v by simp
        with extract_fields_version [OF m' v' tips files hn]
        have "r = empty_fields
           (''Type'' \<mapsto> strip (py_str (py_or (dict_get m ''type'') (JStr []))),
            ''Published'' \<mapsto> strip (py_str
               (py_or (dict_get v ''publishedAt'') (py_or (dict_get m ''publishedAt'') (JStr [])))),
            ''Base Model'' \<mapsto> strip (py_str
               (py_or (dict_get v ''baseModel'') (py_or (dict_get v ''baseModelType'') (JStr [])))),
            ''Trigger Words'' \<mapsto> trigger_words (py_or (dict_get v ''trainedWords'') (JList [])),
            ''Usage Tips'' \<mapsto> tips,
            ''Hash'' \<mapsto> fst hn,
            ''File Name'' \<mapsto> snd hn)"
          by simp
        then show ?thesis by blast
      qed
    qed
  qed
qed

text \<open>
  C8: the mapping that \<^verbatim>\<open>extract_fields\<close> returns has exactly the seven keys of
  \<^verbatim>\<open>TARGET_FIELDS\<close>, whatever the model data and the version data are; its values are
  strings, and all of them are empty when the model data is absent.
\<close>

theorem extract_fields_seven_keys:
  "(extract_fields w model_data version_data = Inr r \<longrightarrow> dom r = set TARGET_FIELDS)
   \<and> distinct TARGET_FIELDS \<and> length TARGET_FIELDS = 7
   \<and> extract_fields w None version_data = Inr empty_fields
   \<and> (\<forall>k\<in>set TARGET_FIELDS. empty_fields k = Some [])"
proof (intro conjI impI)
  assume a: "extract_fields w model_data version_data = Inr r"
  have k: "{''Type'', ''Published'', ''Base Model'', ''Trigger Words'', ''Usage Tips'', ''Hash'',
            ''File Name''} \<subseteq> set TARGET_FIELDS"
    by (simp add: TARGET_FIELDS_def)
  from extract_fields_shapes [OF a] have "dom r = dom empty_fields
      \<or> dom r = insert ''Type'' (dom empty_fields)
      \<or> dom r = {''Type'', ''Published'', ''Base Model'', ''Trigger Words'', ''Usage Tips'',
                  ''Hash'', ''File Name''} \<union> dom empty_fields"
    by (elim disjE exE) auto
  with k show "dom r = set TARGET_FIELDS"
    unfolding dom_empty_fields by blast
next
  show "distinct TARGET_FIELDS" by (simp add: TARGET_FIELDS_def)
  show "length TARGET_FIELDS = 7" by (simp add: TARGET_FIELDS_def)
  show "extract_fields w None version_data = Inr empty_fields"
    by (simp add: extract_fields_def)
  show "\<forall>k\<in>set TARGET_FIELDS. empty_fields k = Some []"
    by (simp add: TARGET_FIELDS_def empty_fields_def)
qed

theorem extract_fields_seven_keys_witness:
  "dom (empty_fields(''Type'' \<mapsto> ''LORA'')) = set TARGET_FIELDS
   \<and> extract_fields offline (Some (JDict a_model)) None = Inr (empty_fields(''Type'' \<mapsto> ''LORA''))
   \<and> empty_fields ''Hash'' = Some []"
proof -
  have e: "extract_fields offline (Some (JDict a_model)) None = Inr (empty_fields(''Type'' \<mapsto> ''LORA''))"
    by (simp add: extract_fields_def a_model_def dict_get_def py_or_def strip_def py_isspace_def)
  have h: "''Hash'' \<in> set TARGET_FIELDS" by (simp add: TARGET_FIELDS_def)
  from extract_fields_seven_keys [of offline "Some (JDict a_model)" None "empty_fields(''Type'' \<mapsto> ''LORA'')"] e h
  show ?thesis by blast
qed

lemma field_Inr: "field (Inr r) k = r k"
  by (simp add: field_def)

lemma trigger_words_or:
  "trigger_words (py_or x (JList [])) =
     (case x of
        JList ws \<Rightarrow> join '', '' (filter (\<lambda>s. s \<noteq> []) (map (\<lambda>x. strip (py_str x)) ws))
      | t \<Rightarrow> if truthy t then strip (py_str t) else [])"
  by (cases x) (simp_all add: py_or_def trigger_words_def)

text \<open>
  C9, as the claim states it, at a version whose \<^verbatim>\<open>trainedWords\<close> is the number 0, a value
  that is not a list: the claim makes Trigger Words its string, \<^verbatim>\<open>0\<close>. The field is empty,
  because \<^verbatim>\<open>version_data.get("trainedWords") or []\<close> replaces a false value by the empty
  list.
\<close>

theorem trigger_words_zero_counterexample:
  "field (extract_fields offline (Some (JDict a_model))
            (Some (JDict [(''trainedWords'', JInt 0)]))) ''Trigger Words'' = Some []
   \<and> py_str (JInt 0) = ''0''"
  by code_simp

text \<open>
  C9, amended: for every version record that \<^verbatim>\<open>extract_fields\<close> processes without an
  exception, if \<^verbatim>\<open>trainedWords\<close> is a list, Trigger Words is the join with a comma and a
  space of the stripped strings of its entries, the entries that are empty after
  stripping being dropped; if it is any other value that is true, Trigger Words is the
  stripped string of that value; if it is a value that is false (absent, \<^verbatim>\<open>null\<close>, \<^verbatim>\<open>false\<close>,
  0, the empty string, the empty object), Trigger Words is empty.
\<close>

theorem trigger_words_normalized:
  assumes "m \<noteq> []" and "v \<noteq> []"
    and "build_usage_tips (JDict v) = Inr tips"
    and "py_iter (py_or (dict_get v ''files'') (JList [])) = Inr files"
    and "scan_files w files = Inr hn"
  shows "field (extract_fields w (Some (JDict m)) (Some (JDict v))) ''Trigger Words'' =
     Some (case dict_get v ''trainedWords'' of
             JList ws \<Rightarrow> join '', '' (filter (\<lambda>s. s \<noteq> []) (map (\<lambda>x. strip (py_str x)) ws))
           | t \<Rightarrow> if truthy t then strip (py_str t) else [])"
  unfolding extract_fields_version [OF assms] field_Inr
  by (simp add: trigger_words_or)

theorem trigger_words_normalized_witness:
  "field (extract_fields offline (Some (JDict a_model))
            (Some (JDict [(''trainedWords'', JList [JStr [], JStr '' a '', JStr ''b''])])))
     ''Trigger Words'' = Some ''a, b''
   \<and> field (extract_fields offline (Some (JDict a_model))
            (Some (JDict [(''trainedWords'', JStr '' x '')]))) ''Trigger Words'' = Some ''x''"
proof -
  have m: "a_model \<noteq> []" by (simp add: a_model_def)
  have t1: "build_usage_tips (JDict [(''trainedWords'', JList [JStr [], JStr '' a '', JStr ''b''])])
              = Inr []"
    by code_simp
  have t2: "build_usage_tips (JDict [(''trainedWords'', JStr '' x '')]) = Inr []"
    by code_simp
  have f1: "py_iter (py_or (dict_get [(''trainedWords'', JList [JStr [], JStr '' a '', JStr ''b''])]
              ''files'') (JList [])) = Inr []"
    by code_simp
  have f2: "py_iter (py_or (dict_get [(''trainedWords'', JStr '' x '')] ''files'') (JList []))
              = Inr []"
    by code_simp
  have s: "scan_files offline [] = Inr ([], [])" by simp
  have e1: "(case dict_get [(''trainedWords'', JList [JStr [], JStr '' a '', JStr ''b''])]
                 ''trainedWords'' of
             JList ws \<Rightarrow> join '', '' (filter (\<lambda>s. s \<noteq> []) (map (\<lambda>x. strip (py_str x)) ws))
           | t \<Rightarrow> if truthy t then strip (py_str t) else []) = ''a, b''"
    by code_simp
  have e2: "(case dict_get [(''trainedWords'', JStr '' x '')] ''trainedWords'' of
             JList ws \<Rightarrow> join '', '' (filter (\<lambda>s. s \<noteq> []) (map (\<lambda>x. strip (py_str x)) ws))
           | t \<Rightarrow> if truthy t then strip (py_str t) else []) = ''x''"
    by code_simp
  from trigger_words_normalized [OF m _ t1 f1 s] trigger_words_normalized [OF m _ t2 f2 s] e1 e2
  show ?thesis by simp
qed

lemma field_model_file:
  assumes "m \<noteq> []"
    and "dict_get v ''files'' = JList (pre @ JDict f # post)"
    and "skipped pre" and "is_model_type (dict_get f ''type'')"
    and "build_usage_tips (JDict v) = Inr tips"
  shows "field (extract_fields w (Some (JDict m)) (Some (JDict v))) ''Hash'' =
           Some (resolve_hash (py_or (dict_get f ''hashes'') (JList [])))"
    and "field (extract_fields w (Some (JDict m)) (Some (JDict v))) ''File Name'' =
           Some (model_file_name w f)"
  using extract_fields_model_file [OF assms, of w] by (auto simp: field_def)

text \<open>Facts about the inputs of the examples.\<close>

lemma a_model_nonempty: "a_model \<noteq> []"
  by (simp add: a_model_def)

lemma version_with_files: "dict_get (version_with fs) ''files'' = JList fs"
  by (simp add: version_with_def dict_get_def)

lemma version_with_tips: "build_usage_tips (JDict (version_with fs)) = Inr []"
  by (simp add: version_with_def build_usage_tips_def dict_get_def py_or_def usage_parts_def)

lemma file_of_type: "dict_get (file_of t h) ''type'' = JStr t"
  by (simp add: file_of_def dict_get_def)

lemma file_of_hashes: "dict_get (file_of t h) ''hashes'' = h"
  by (simp add: file_of_def dict_get_def)

lemma file_of_name: "model_file_name w (file_of t h) = []"
  by (simp add: file_of_def dict_get_def model_file_name_def)

text \<open>
  C4, as the claim states it, at a version with two files, the first of type \<^verbatim>\<open>MODEL\<close>
  with the hash \<^verbatim>\<open>a\<close> and the second of type \<^verbatim>\<open>model\<close> with the hash \<^verbatim>\<open>b\<close>: the claim
  makes the first one the model file. The Hash field is that of the second file, because
  the test compares the type with \<^verbatim>\<open>Model\<close> and \<^verbatim>\<open>model\<close> only; with the first file alone the
  Hash field is empty.
\<close>

theorem model_file_upper_case_counterexample:
  "field (extract_fields offline (Some (JDict a_model))
     (Some (JDict (version_with
        [JDict (file_of ''MODEL'' (JDict [(''AutoV2'', JStr ''a'')])),
         JDict (file_of ''model'' (JDict [(''AutoV2'', JStr ''b'')]))])))) ''Hash''
     = Some ''AUTOV2 | b''
   \<and> field (extract_fields offline (Some (JDict a_model))
     (Some (JDict (version_with
        [JDict (file_of ''MODEL'' (JDict [(''AutoV2'', JStr ''a'')]))])))) ''Hash'' = Some []"
  by code_simp

text \<open>
  C4, amended: for every version record, the files list is searched in its order and
  exactly the first file whose type equals \<^verbatim>\<open>Model\<close> or \<^verbatim>\<open>model\<close> is treated as the model
  file: Hash and File Name are those of that file, whatever follows it in the list; the
  later files are never inspected.
\<close>

theorem model_file_selection:
  assumes "m \<noteq> []"
    and "dict_get v ''files'' = JList (pre @ JDict f # post)"
    and "skipped pre" and "is_model_type (dict_get f ''type'')"
    and "build_usage_tips (JDict v) = Inr tips"
  shows "field (extract_fields w (Some (JDict m)) (Some (JDict v))) ''Hash'' =
           Some (resolve_hash (py_or (dict_get f ''hashes'') (JList [])))
       \<and> field (extract_fields w (Some (JDict m)) (Some (JDict v))) ''File Name'' =
           Some (model_file_name w f)"
  using field_model_file [OF assms] by simp

theorem model_file_selection_witness:
  "field (extract_fields offline (Some (JDict a_model))
     (Some (JDict (version_with
        [JDict (file_of ''MODEL'' (JDict [(''AutoV2'', JStr ''a'')])),
         JDict (file_of ''model'' (JDict [(''AutoV2'', JStr ''b'')])),
         JInt 5])))) ''Hash'' = Some ''AUTOV2 | b''"
proof -
  have f: "dict_get (version_with
        [JDict (file_of ''MODEL'' (JDict [(''AutoV2'', JStr ''a'')])),
         JDict (file_of ''model'' (JDict [(''AutoV2'', JStr ''b'')])),
         JInt 5]) ''files'' =
        JList ([JDict (file_of ''MODEL'' (JDict [(''AutoV2'', JStr ''a'')]))]
               @ JDict (file_of ''model'' (JDict [(''AutoV2'', JStr ''b'')])) # [JInt 5])"
    by (simp add: version_with_files)
  have s: "skipped [JDict (file_of ''MODEL'' (JDict [(''AutoV2'', JStr ''a'')]))]"
    by (simp add: skipped_def file_of_type is_model_type_def)
  have t: "is_model_type (dict_get (file_of ''model'' (JDict [(''AutoV2'', JStr ''b'')])) ''type'')"
    by (simp add: file_of_type is_model_type_def)
  have h: "resolve_hash (py_or (dict_get (file_of ''model'' (JDict [(''AutoV2'', JStr ''b'')]))
              ''hashes'') (JList [])) = ''AUTOV2 | b''"
    by code_simp
  from model_file_selection [OF a_model_nonempty f s t version_with_tips, of offline] h
  show ?thesis by simp
qed

text \<open>
  C5: a model file with a stored name and no URL. The claim makes File Name fall back to
  the stored name, as the program does after a probe that fails; the program leaves File
  Name empty, because the fallback is inside the branch taken only when the file has a
  URL.
\<close>

theorem file_name_without_url:
  "field (extract_fields w (Some (JDict a_model))
     (Some (JDict (version_with [JDict (file_of ''Model'' JNull)])))) ''File Name'' = Some []
   \<and> dict_get (file_of ''Model'' JNull) ''name'' = JStr ''a.safetensors''
   \<and> dict_get (file_of ''Model'' JNull) ''url'' = JNull"
proof -
  have f: "dict_get (version_with [JDict (file_of ''Model'' JNull)]) ''files'' =
        JList ([] @ JDict (file_of ''Model'' JNull) # [])"
    by (simp add: version_with_files)
  have s: "skipped []" by (simp add: skipped_def)
  have t: "is_model_type (dict_get (file_of ''Model'' JNull) ''type'')"
    by (simp add: file_of_type is_model_type_def)
  from field_model_file(2) [OF a_model_nonempty f s t version_with_tips, of w]
  show ?thesis by (simp add: file_of_name) (simp add: file_of_def dict_get_def)
qed

text \<open>
  C10: for every model file whose \<^verbatim>\<open>hashes\<close> is a dictionary, the Hash field depends on the
  keys \<^verbatim>\<open>AutoV2\<close> and \<^verbatim>\<open>AUTOV2\<close> only: it is \<^verbatim>\<open>AUTOV2\<close>, a bar and the stripped string of the
  first of the two values that is true, and it is empty when neither is true, whatever
  other hash types the dictionary holds.
\<close>

theorem hash_of_mapping:
  assumes "m \<noteq> []"
    and "dict_get v ''files'' = JList (pre @ JDict f # post)"
    and "skipped pre" and "is_model_type (dict_get f ''type'')"
    and "build_usage_tips (JDict v) = Inr tips"
    and "dict_get f ''hashes'' = JDict d"
  shows "field (extract_fields w (Some (JDict m)) (Some (JDict v))) ''Hash'' =
           Some (let a = strip (py_str (py_or (dict_get d ''AutoV2'')
                                          (py_or (dict_get d ''AUTOV2'') (JStr []))))
                 in if a = [] then [] else ''AUTOV2 | '' @ a)
       \<and> (\<not> truthy (dict_get d ''AutoV2'') \<and> \<not> truthy (dict_get d ''AUTOV2'')
            \<longrightarrow> field (extract_fields w (Some (JDict m)) (Some (JDict v))) ''Hash'' = Some [])"
proof -
  have h: "field (extract_fields w (Some (JDict m)) (Some (JDict v))) ''Hash'' =
           Some (let a = strip (py_str (py_or (dict_get d ''AutoV2'')
                                          (py_or (dict_get d ''AUTOV2'') (JStr []))))
                 in if a = [] then [] else ''AUTOV2 | '' @ a)"
    using field_model_file(1) [OF assms(1-5), of w] assms(6)
    by (simp only: resolve_hash_dict)
  have "\<not> truthy (dict_get d ''AutoV2'') \<and> \<not> truthy (dict_get d ''AUTOV2'')
        \<longrightarrow> strip (py_str (py_or (dict_get d ''AutoV2'')
                                          (py_or (dict_get d ''AUTOV2'') (JStr [])))) = []"
    by (simp add: py_or_def strip_def)
  with h show ?thesis by simp
qed

theorem hash_of_mapping_witness:
  "field (extract_fields offline (Some (JDict a_model))
     (Some (JDict (version_with [JDict (file_of ''Model'' (JDict [(''SHA256'', JStr ''x'')]))]))))
     ''Hash'' = Some []
   \<and> field (extract_fields offline (Some (JDict a_model))
     (Some (JDict (version_with
        [JDict (file_of ''Model'' (JDict [(''SHA256'', JStr ''x''), (''AUTOV2'', JStr ''z'')]))]))))
     ''Hash'' = Some ''AUTOV2 | z''"
proof -
  let ?d1 = "[(''SHA256'', JStr ''x'')]"
  let ?d2 = "[(''SHA256'', JStr ''x''), (''AUTOV2'', JStr ''z'')]"
  have f1: "dict_get (version_with [JDict (file_of ''Model'' (JDict ?d1))]) ''files'' =
        JList ([] @ JDict (file_of ''Model'' (JDict ?d1)) # [])"
    by (simp add: version_with_files)
  have f2: "dict_get (version_with [JDict (file_of ''Model'' (JDict ?d2))]) ''files'' =
        JList ([] @ JDict (file_of ''Model'' (JDict ?d2)) # [])"
    by (simp add: version_with_files)
  have s: "skipped []" by (simp add: skipped_def)
  have t1: "is_model_type (dict_get (file_of ''Model'' (JDict ?d1)) ''type'')"
    by (simp add: file_of_type is_model_type_def)
  have t2: "is_model_type (dict_get (file_of ''Model'' (JDict ?d2)) ''type'')"
    by (simp add: file_of_type is_model_type_def)
  have n1: "\<not> truthy (dict_get ?d1 ''AutoV2'') \<and> \<not> truthy (dict_get ?d1 ''AUTOV2'')"
    by (simp add: dict_get_def)
  have e2: "(let a = strip (py_str (py_or (dict_get ?d2 ''AutoV2'')
                                          (py_or (dict_get ?d2 ''AUTOV2'') (JStr []))))
                 in if a = [] then [] else ''AUTOV2 | '' @ a) = ''AUTOV2 | z''"
    by code_simp
  from hash_of_mapping [OF a_model_nonempty f1 s t1 version_with_tips file_of_hashes, of offline] n1
  have "field (extract_fields offline (Some (JDict a_model))
     (Some (JDict (version_with [JDict (file_of ''Model'' (JDict ?d1))])))) ''Hash'' = Some []"
    by blast
  moreover from hash_of_mapping [OF a_model_nonempty f2 s t2 version_with_tips file_of_hashes, of offline] e2
  have "field (extract_fields offline (Some (JDict a_model))
     (Some (JDict (version_with [JDict (file_of ''Model'' (JDict ?d2))])))) ''Hash''
       = Some ''AUTOV2 | z''"
    by simp
  ultimately show ?thesis by simp
qed

section \<open>Properties of the embedded-state locator\<close>

lemma find_ci_none_prefix: "find_ci lit s = None \<Longrightarrow> prefix_ci lit s = None"
  by (cases s) (auto split: option.splits)

lemma script_search_none: "find_ci ''<script'' html = None \<Longrightarrow> script_search html = None"
proof (induction html)
  case Nil
  show ?case by simp
next
  case (Cons c cs)
  from Cons.prems have p: "prefix_ci ''<script'' (c # cs) = None"
    by (rule find_ci_none_prefix)
  from Cons.prems have "find_ci ''<script'' cs = None"
    by (auto split: option.splits)
  with Cons.IH p show ?case by (simp add: script_group_def)
qed

text \<open>
  C2, as the claim states it, at a page whose element holds a lone opening brace: both
  parse attempts fail, and the claim makes the locator return no value. The locator
  raises the JSONDecodeError of the second attempt, which no \<^verbatim>\<open>try\<close> encloses.
\<close>

theorem extract_next_data_raises_counterexample:
  "script_search broken_page = Some ''{''
   \<and> json_loads offline (strip ''{'') = None
   \<and> json_loads offline (replace_quot (strip ''{'')) = None
   \<and> extract_next_data offline broken_page = Inl JSONDecodeError"
  by code_simp

text \<open>
  C2, amended: for every HTML input, if no matching element exists (in particular when
  the page has no script tag at all), \<^verbatim>\<open>extract_next_data\<close> returns no value; if the
  content of the element, stripped, parses as JSON, it returns the parsed value; if it
  fails to parse, the locator retries exactly once after replacing every \<^verbatim>\<open>&quot;\<close> with a
  quotation mark and returns the value of the second attempt; if the second attempt
  fails too, its JSONDecodeError is raised to the caller.
\<close>

theorem extract_next_data_retry:
  "(script_search html = None \<longrightarrow> extract_next_data w html = Inr JNull)
   \<and> (find_ci ''<script'' html = None \<longrightarrow> extract_next_data w html = Inr JNull)
   \<and> (script_search html = Some g \<and> json_loads w (strip g) = Some j
        \<longrightarrow> extract_next_data w html = Inr j)
   \<and> (script_search html = Some g \<and> json_loads w (strip g) = None
        \<and> json_loads w (replace_quot (strip g)) = Some j
        \<longrightarrow> extract_next_data w html = Inr j)
   \<and> (script_search html = Some g \<and> json_loads w (strip g) = None
        \<and> json_loads w (replace_quot (strip g)) = None
        \<longrightarrow> extract_next_data w html = Inl JSONDecodeError)"
  by (simp add: extract_next_data_def script_search_none)

theorem extract_next_data_retry_witness:
  "extract_next_data offline bare_page = Inr JNull
   \<and> extract_next_data offline plain_page = Inr (JDict [])
   \<and> extract_next_data offline entity_page = Inr (JDict [(''a'', JInt 1)])
   \<and> extract_next_data offline broken_page = Inl JSONDecodeError"
proof (intro conjI)
  have "find_ci ''<script'' bare_page = None" by code_simp
  with extract_next_data_retry [of bare_page offline]
  show "extract_next_data offline bare_page = Inr JNull" by blast
next
  have "script_search plain_page = Some ''{}'' \<and> json_loads offline (strip ''{}'') = Some (JDict [])"
    by code_simp
  with extract_next_data_retry [of plain_page offline "''{}''" "JDict []"]
  show "extract_next_data offline plain_page = Inr (JDict [])" by blast
next
  have "script_search entity_page = Some '' {&quot;a&quot;: 1} ''
      \<and> json_loads offline (strip '' {&quot;a&quot;: 1} '') = None
      \<and> json_loads offline (replace_quot (strip '' {&quot;a&quot;: 1} ''))
          = Some (JDict [(''a'', JInt 1)])"
    by code_simp
  with extract_next_data_retry [of entity_page offline "'' {&quot;a&quot;: 1} ''"
      "JDict [(''a'', JInt 1)]"]
  show "extract_next_data offline entity_page = Inr (JDict [(''a'', JInt 1)])" by blast
next
  have "script_search broken_page = Some ''{''
      \<and> json_loads offline (strip ''{'') = None
      \<and> json_loads offline (replace_quot (strip ''{'')) = None"
    by code_simp
  with extract_next_data_retry [of broken_page offline "''{''"]
  show "extract_next_data offline broken_page = Inl JSONDecodeError" by blast
qed

section \<open>Properties of the pipeline\<close>








section \<open>Properties of the conversion of stored ids\<close>

lemma dropWhile_head: "xs \<noteq> [] \<Longrightarrow> \<not> P (hd xs) \<Longrightarrow> dropWhile P xs = xs"
  by (cases xs) auto

lemma is_digit_not_space: "is_digit c \<Longrightarrow> \<not> int_isspace c"
  by (auto simp: is_digit_def int_isspace_def Let_def)

lemma is_digit_not_sign: "is_digit c \<Longrightarrow> c \<noteq> CHR ''-'' \<and> c \<noteq> CHR ''+''"
  by (auto simp: is_digit_def)

lemma int_strip_digits:
  assumes "s \<noteq> []" and "list_all is_digit s"
  shows "int_strip s = s"
proof -
  from assms have "is_digit (hd s)" by (cases s) auto
  then have a: "dropWhile int_isspace s = s"
    using assms(1) by (simp add: dropWhile_head is_digit_not_space)
  from assms have "is_digit (last s)" by (simp add: list_all_iff)
  then have "\<not> int_isspace (hd (rev s))"
    using assms(1) by (simp add: hd_rev is_digit_not_space)
  then have "dropWhile int_isspace (rev s) = rev s"
    using assms(1) by (simp add: dropWhile_head)
  with a show ?thesis by (simp add: int_strip_def)
qed

lemma parse_digits_all:
  "list_all is_digit cs \<Longrightarrow>
   parse_digits acc cs = Some (foldl (\<lambda>a c. 10 * a + digit_val c) acc cs)"
  by (induction cs arbitrary: acc) auto

lemma int_of_str_digits:
  assumes "s \<noteq> []" and "list_all is_digit s"
  shows "int_of_str s = Some (int (decimal_value s))"
proof -
  from assms(1) obtain c cs where s: "s = c # cs" by (cases s) auto
  with assms(2) have c: "is_digit c" and cs: "list_all is_digit cs" by auto
  have "parse_nat (c # cs) = Some (decimal_value (c # cs))"
    using c parse_digits_all [OF cs, of "digit_val c"]
    by (simp add: parse_nat_def decimal_value_def)
  with is_digit_not_sign [OF c] int_strip_digits [OF assms] s show ?thesis
    by (simp add: int_of_str_def)
qed

lemma set_int_strip: "set (int_strip s) \<subseteq> set s"
proof
  fix x assume "x \<in> set (int_strip s)"
  then have "x \<in> set (dropWhile int_isspace (rev (dropWhile int_isspace s)))"
    by (simp add: int_strip_def)
  then have "x \<in> set (rev (dropWhile int_isspace s))" by (rule set_dropWhileD)
  then have "x \<in> set (dropWhile int_isspace s)" by simp
  then show "x \<in> set s" by (rule set_dropWhileD)
qed

lemma parse_nat_no_digit: "(\<forall>c\<in>set cs. \<not> is_digit c) \<Longrightarrow> parse_nat cs = None"
  by (cases cs) (auto simp: parse_nat_def)

lemma int_of_str_no_digit:
  assumes "\<forall>c\<in>set s. \<not> is_digit c"
  shows "int_of_str s = None"
proof (cases "int_strip s")
  case Nil
  then show ?thesis by (simp add: int_of_str_def)
next
  case (Cons c cs)
  with set_int_strip [of s] assms have n: "\<forall>x\<in>set (c # cs). \<not> is_digit x" by auto
  then have "parse_nat (c # cs) = None" by (rule parse_nat_no_digit)
  moreover from n have "parse_nat cs = None" by (intro parse_nat_no_digit) auto
  ultimately show ?thesis using Cons by (simp add: int_of_str_def)
qed

text \<open>
  C6, as the claim states it, at a model whose first version has the id \<^verbatim>\<open>"1_0"\<close> and whose
  second version has the id 10, with the target 10, and at a model whose first version
  has the id \<^verbatim>\<open>true\<close> and whose second version has the id 1, with the target 1: the claim
  makes the selector return the version whose id is the target exactly, the second one.
  The selector returns the first version, because it compares \<^verbatim>\<open>int(v.get("id"))\<close> with the
  target, and \<^verbatim>\<open>int\<close> converts both ids to the target.
\<close>

theorem choose_model_version_converted_id_counterexample:
  "choose_model_version underscore_versions (Some 10) =
     Inr (Some (JDict [(''id'', JStr ''1_0''), (''publishedAt'', JStr ''2023-01-01'')]))
   \<and> choose_model_version boolean_versions (Some 1) =
     Inr (Some (JDict [(''id'', JBool True), (''publishedAt'', JStr ''2023-01-01'')]))"
  by code_simp

text \<open>
  C6, amended: if the value of \<^verbatim>\<open>modelVersions\<close> is absent, not a list or the empty list,
  \<^verbatim>\<open>choose_model_version\<close> returns no value. If a target version id is supplied, it
  returns the first version that is a dictionary whose id, converted with \<^verbatim>\<open>int\<close>, equals
  the target: an integer converts to itself, \<^verbatim>\<open>true\<close> and \<^verbatim>\<open>false\<close> to 1 and 0, a string of
  decimal digits to its value, and an id that \<^verbatim>\<open>int\<close> rejects (no value, a list, an object,
  a string without a digit) is skipped. Otherwise, or when no id matches, and with \<^verbatim>\<open>ks\<close>
  the keys of the versions, each the string of \<^verbatim>\<open>publishedAt\<close> or the empty string when it
  is absent, it returns the head of a stable descending sort by these keys: a version
  whose key is greatest in the lexicographic order, and the first such version of the
  list. The empty key is below every other key, so it is chosen only when every key is
  empty.
\<close>

theorem choose_model_version_selection:
  "(get model_data ''modelVersions'' = Inr vs \<and> (\<forall>y ys. vs \<noteq> JList (y # ys))
      \<longrightarrow> choose_model_version model_data version_id = Inr None)
   \<and> (get model_data ''modelVersions'' = Inr (JList xs) \<and> i < length xs
        \<and> version_id_matches n (xs ! i) \<and> (\<forall>j<i. \<not> version_id_matches n (xs ! j))
      \<longrightarrow> choose_model_version model_data (Some n) = Inr (Some (xs ! i)))
   \<and> (get model_data ''modelVersions'' = Inr (JList xs) \<and> xs \<noteq> []
        \<and> map published_ts xs = map Inr ks
        \<and> (version_id = None
            \<or> (\<exists>n. version_id = Some n \<and> (\<forall>v\<in>set xs. \<not> version_id_matches n v)))
      \<longrightarrow> (\<exists>i<length xs. choose_model_version model_data version_id = Inr (Some (xs ! i))
            \<and> (\<forall>j<length xs. ks ! j \<le> ks ! i) \<and> (\<forall>j<i. ks ! j < ks ! i)
            \<and> (ks ! i = [] \<longrightarrow> (\<forall>j<length xs. ks ! j = []))))
   \<and> version_id_matches n v =
        (case v of JDict d \<Rightarrow> py_int (dict_get d ''id'') = Some n | _ \<Rightarrow> False)
   \<and> py_int (JInt k) = Some k \<and> py_int (JBool b) = Some (if b then 1 else 0)
   \<and> py_int JNull = None \<and> py_int (JList ys) = None \<and> py_int (JDict kvs) = None
   \<and> (s \<noteq> [] \<and> list_all is_digit s \<longrightarrow> py_int (JStr s) = Some (int (decimal_value s)))
   \<and> ((\<forall>c\<in>set s. \<not> is_digit c) \<longrightarrow> py_int (JStr s) = None)
   \<and> published_ts (JDict d) = Inr (py_str (py_or (dict_get d ''publishedAt'') (JStr [])))
   \<and> (dict_get d ''publishedAt'' = JStr p \<longrightarrow> published_ts (JDict d) = Inr p)
   \<and> (dict_get d ''publishedAt'' = JNull \<longrightarrow> published_ts (JDict d) = Inr [])"
proof (intro conjI impI)
  assume a: "get model_data ''modelVersions'' = Inr vs \<and> (\<forall>y ys. vs \<noteq> JList (y # ys))"
  then show "choose_model_version model_data version_id = Inr None"
    by (auto simp: choose_model_version_def split: json.splits list.splits)
next
  assume a: "get model_data ''modelVersions'' = Inr (JList xs) \<and> i < length xs
        \<and> version_id_matches n (xs ! i) \<and> (\<forall>j<i. \<not> version_id_matches n (xs ! j))"
  then have s: "search_version n xs = Some (xs ! i)"
    by (simp add: search_version_first)
  from a obtain v vs where xs: "xs = v # vs" by (cases xs) auto
  from a s show "choose_model_version model_data (Some n) = Inr (Some (xs ! i))"
    unfolding xs by (simp add: choose_model_version_def)
next
  assume a: "get model_data ''modelVersions'' = Inr (JList xs) \<and> xs \<noteq> []
        \<and> map published_ts xs = map Inr ks
        \<and> (version_id = None
            \<or> (\<exists>n. version_id = Some n \<and> (\<forall>v\<in>set xs. \<not> version_id_matches n v)))"
  then obtain i where i: "i < length xs"
    and r: "choose_model_version model_data version_id = Inr (Some (xs ! i))"
    and mx: "\<forall>j<length xs. ks ! j \<le> ks ! i" and fs: "\<forall>j<i. ks ! j < ks ! i"
    using choose_model_version_sorted [of model_data xs ks version_id] by blast
  have "ks ! i = [] \<longrightarrow> (\<forall>j<length xs. ks ! j = [])"
  proof (intro impI allI)
    fix j assume "ks ! i = []" and "j < length xs"
    with mx have "ks ! j \<le> []" by auto
    then show "ks ! j = []" by simp
  qed
  with i r mx fs
  show "\<exists>i<length xs. choose_model_version model_data version_id = Inr (Some (xs ! i))
            \<and> (\<forall>j<length xs. ks ! j \<le> ks ! i) \<and> (\<forall>j<i. ks ! j < ks ! i)
            \<and> (ks ! i = [] \<longrightarrow> (\<forall>j<length xs. ks ! j = []))"
    by blast
next
  show "version_id_matches n v =
        (case v of JDict d \<Rightarrow> py_int (dict_get d ''id'') = Some n | _ \<Rightarrow> False)"
    by (cases v) (auto simp: version_id_matches_def split: option.splits)
next
  assume "s \<noteq> [] \<and> list_all is_digit s"
  then show "py_int (JStr s) = Some (int (decimal_value s))"
    by (simp add: int_of_str_digits)
next
  assume "\<forall>c\<in>set s. \<not> is_digit c"
  then show "py_int (JStr s) = None"
    by (simp add: int_of_str_no_digit)
next
  show "published_ts (JDict d) = Inr (py_str (py_or (dict_get d ''publishedAt'') (JStr [])))"
    by (simp add: published_ts_def)
next
  assume "dict_get d ''publishedAt'' = JStr p"
  then show "published_ts (JDict d) = Inr p"
    by (cases p) (simp_all add: published_ts_def py_or_def)
next
  assume "dict_get d ''publishedAt'' = JNull"
  then show "published_ts (JDict d) = Inr []"
    by (simp add: published_ts_def py_or_def)
qed simp_all

lemma three_versions_get: "get three_versions ''modelVersions'' = Inr (JList three_list)"
  by (simp add: three_versions_def three_list_def dict_get_def)

lemma three_keys:
  "map published_ts three_list = map Inr [''2023-01-01'', ''2024-05-05'', ''2023-12-31'']"
  by (simp add: three_list_def version_of_def published_ts_def dict_get_def py_or_def)

lemma three_match_3:
  "version_id_matches 3 (three_list ! 2) \<and> (\<forall>j<2. \<not> version_id_matches 3 (three_list ! j))"
  by (simp add: three_list_def version_of_def version_id_matches_def dict_get_def
      less_Suc_eq numeral_2_eq_2)

theorem choose_model_version_selection_witness:
  "choose_model_version (JDict []) None = Inr None
   \<and> choose_model_version three_versions (Some 3) = Inr (Some (version_of 3 ''2023-12-31''))
   \<and> choose_model_version three_versions None = Inr (Some (version_of 2 ''2024-05-05''))
   \<and> py_int (JStr ''42'') = Some 42
   \<and> py_int (JStr ''n/a'') = None
   \<and> published_ts (version_of 2 ''2024-05-05'') = Inr ''2024-05-05''
   \<and> published_ts (JDict [(''id'', JInt 4)]) = Inr []"
proof (intro conjI)
  note t = choose_model_version_selection
    [where model_data = "JDict []" and vs = JNull and version_id = "None :: int option",
      THEN conjunct1]
  have "get (JDict []) ''modelVersions'' = Inr JNull \<and> (\<forall>y ys. JNull \<noteq> JList (y # ys))"
    by (simp add: dict_get_def)
  then show "choose_model_version (JDict []) None = Inr None"
    by (rule mp [OF t])
next
  note t = choose_model_version_selection
    [where model_data = three_versions and xs = three_list and i = 2 and n = 3,
      THEN conjunct2, THEN conjunct1]
  have "get three_versions ''modelVersions'' = Inr (JList three_list) \<and> 2 < length three_list
        \<and> version_id_matches 3 (three_list ! 2)
        \<and> (\<forall>j<2. \<not> version_id_matches 3 (three_list ! j))"
    using three_versions_get three_match_3 by (simp add: three_list_def)
  then have "choose_model_version three_versions (Some 3) = Inr (Some (three_list ! 2))"
    by (rule mp [OF t])
  then show "choose_model_version three_versions (Some 3) = Inr (Some (version_of 3 ''2023-12-31''))"
    by (simp add: three_list_def)
next
  let ?ks = "[''2023-01-01'', ''2024-05-05'', ''2023-12-31'']"
  note t = choose_model_version_selection
    [where model_data = three_versions and xs = three_list and ks = ?ks
       and version_id = "None :: int option",
      THEN conjunct2, THEN conjunct2, THEN conjunct1]
  have "get three_versions ''modelVersions'' = Inr (JList three_list) \<and> three_list \<noteq> []
        \<and> map published_ts three_list = map Inr ?ks
        \<and> ((None :: int option) = None
            \<or> (\<exists>n. (None :: int option) = Some n \<and> (\<forall>v\<in>set three_list. \<not> version_id_matches n v)))"
    using three_versions_get three_keys by (simp add: three_list_def)
  then have "\<exists>i<length three_list.
       choose_model_version three_versions None = Inr (Some (three_list ! i))
       \<and> (\<forall>j<length three_list. ?ks ! j \<le> ?ks ! i) \<and> (\<forall>j<i. ?ks ! j < ?ks ! i)
       \<and> (?ks ! i = [] \<longrightarrow> (\<forall>j<length three_list. ?ks ! j = []))"
    by (rule mp [OF t])
  then obtain i where i: "i < length three_list"
    and r: "choose_model_version three_versions None = Inr (Some (three_list ! i))"
    and mx: "\<forall>j<length three_list. ?ks ! j \<le> ?ks ! i" by blast
  from i have "i = 0 \<or> i = 1 \<or> i = 2" by (auto simp: three_list_def)
  moreover have "(1::nat) < length three_list" by (simp add: three_list_def)
  with mx have "?ks ! 1 \<le> ?ks ! i" by blast
  ultimately have "i = 1" by auto
  with r show "choose_model_version three_versions None = Inr (Some (version_of 2 ''2024-05-05''))"
    by (simp add: three_list_def)
next
  note t = choose_model_version_selection
    [where s = "''42''", THEN conjunct2, THEN conjunct2, THEN conjunct2, THEN conjunct2,
      THEN conjunct2, THEN conjunct2, THEN conjunct2, THEN conjunct2, THEN conjunct2,
      THEN conjunct1]
  have "''42'' \<noteq> [] \<and> list_all is_digit ''42''" by code_simp
  then have "py_int (JStr ''42'') = Some (int (decimal_value ''42''))"
    by (rule mp [OF t])
  moreover have "int (decimal_value ''42'') = 42" by code_simp
  ultimately show "py_int (JStr ''42'') = Some 42" by simp
next
  note t = choose_model_version_selection
    [where s = "''n/a''", THEN conjunct2, THEN conjunct2, THEN conjunct2, THEN conjunct2,
      THEN conjunct2, THEN conjunct2, THEN conjunct2, THEN conjunct2, THEN conjunct2,
      THEN conjunct2, THEN conjunct1]
  have "\<forall>c\<in>set ''n/a''. \<not> is_digit c" by code_simp
  then show "py_int (JStr ''n/a'') = None"
    by (rule mp [OF t])
next
  note t = choose_model_version_selection
    [where d = "[(''id'', JInt 2), (''publishedAt'', JStr ''2024-05-05'')]"
       and p = "''2024-05-05''",
      THEN conjunct2, THEN conjunct2, THEN conjunct2, THEN conjunct2,
      THEN conjunct2, THEN conjunct2, THEN conjunct2, THEN conjunct2, THEN conjunct2,
      THEN conjunct2, THEN conjunct2, THEN conjunct2, THEN conjunct1]
  have "dict_get [(''id'', JInt 2), (''publishedAt'', JStr ''2024-05-05'')] ''publishedAt''
          = JStr ''2024-05-05''"
    by (simp add: dict_get_def)
  then show "published_ts (version_of 2 ''2024-05-05'') = Inr ''2024-05-05''"
    unfolding version_of_def by (rule mp [OF t])
next
  note t = choose_model_version_selection
    [where d = "[(''id'', JInt 4)]",
      THEN conjunct2, THEN conjunct2, THEN conjunct2, THEN conjunct2,
      THEN conjunct2, THEN conjunct2, THEN conjunct2, THEN conjunct2, THEN conjunct2,
      THEN conjunct2, THEN conjunct2, THEN conjunct2, THEN conjunct2]
  have "dict_get [(''id'', JInt 4)] ''publishedAt'' = JNull"
    by (simp add: dict_get_def)
  then show "published_ts (JDict [(''id'', JInt 4)]) = Inr []"
    by (rule mp [OF t])
qed

section \<open>The hash of a list of records and the specification's words\<close>

lemma first_hash_of_type_Cons:
  "first_hash_of_type t (h # hs) =
     (case h of
        JDict d \<Rightarrow>
          if upper (py_str (py_or (dict_get d ''type'') (JStr []))) = t
             \<and> truthy (dict_get d ''hash'')
          then strip (py_str (dict_get d ''hash''))
          else first_hash_of_type t hs
      | _ \<Rightarrow> first_hash_of_type t hs)"
  by (cases h) (simp_all add: first_hash_of_type_def)

lemma typed_hashes_Cons:
  "typed_hashes t (h # hs) =
     (case h of
        JDict d \<Rightarrow>
          if upper (py_str (py_or (dict_get d ''type'') (JStr []))) = t
          then strip (py_str (py_or (dict_get d ''hash'') (JStr []))) # typed_hashes t hs
          else typed_hashes t hs
      | _ \<Rightarrow> typed_hashes t hs)"
  by (cases h) (simp_all add: typed_hashes_def List.map_filter_simps)

lemma strip_empty: "strip [] = []"
  by (simp add: strip_def)

lemma first_hash_nonblank:
  "no_blank_hash hs \<Longrightarrow>
   first_hash_of_type t hs =
     (case filter (\<lambda>v. v \<noteq> []) (typed_hashes t hs) of [] \<Rightarrow> [] | v # vs \<Rightarrow> v)"
proof (induction hs)
  case Nil
  show ?case by (simp add: first_hash_of_type_def typed_hashes_def List.map_filter_simps)
next
  case (Cons h hs)
  from Cons.prems have ok: "no_blank_hash hs" by (simp add: no_blank_hash_def)
  note ih = Cons.IH [OF ok]
  show ?case
  proof (cases h)
    case (JDict d)
    show ?thesis
    proof (cases "upper (py_str (py_or (dict_get d ''type'') (JStr []))) = t")
      case False
      with JDict ih show ?thesis
        by (simp add: first_hash_of_type_Cons typed_hashes_Cons)
    next
      case True
      note ty = True
      show ?thesis
      proof (cases "truthy (dict_get d ''hash'')")
        case True
        with Cons.prems JDict have "strip (py_str (dict_get d ''hash'')) \<noteq> []"
          by (simp add: no_blank_hash_def)
        with True ty JDict show ?thesis
          by (simp add: first_hash_of_type_Cons typed_hashes_Cons py_or_def)
      next
        case False
        with ty JDict ih show ?thesis
          by (simp add: first_hash_of_type_Cons typed_hashes_Cons py_or_def strip_empty)
      qed
    qed
  qed (simp_all add: first_hash_of_type_Cons typed_hashes_Cons ih)
qed

lemma first_of_concat:
  "(case concat (map (\<lambda>t. map (g t) (N t)) ts) of [] \<Rightarrow> [] | r # rs \<Rightarrow> r) =
     (case find (\<lambda>t. N t \<noteq> []) ts of None \<Rightarrow> [] | Some t \<Rightarrow> g t (hd (N t)))"
proof (induction ts)
  case Nil
  show ?case by simp
next
  case (Cons t ts)
  show ?case
  proof (cases "N t")
    case Nil
    with Cons.IH show ?thesis by simp
  next
    case (Cons v vs)
    then show ?thesis by simp
  qed
qed

lemma find_holds: "find P xs = Some x \<Longrightarrow> P x"
  by (induction xs) (auto split: if_splits)

lemma scanned_hash_claimed:
  assumes "no_blank_hash hs"
  shows "scanned_hash hs = claimed_hash hs"
proof -
  let ?N = "\<lambda>t. filter (\<lambda>v. v \<noteq> []) (typed_hashes t hs)"
  let ?order = "[''AUTOV2'', ''SHA256'', ''SHA1'', ''CRC32'']"
  have f: "first_hash_of_type t hs = (case ?N t of [] \<Rightarrow> [] | v # vs \<Rightarrow> v)" for t
    by (rule first_hash_nonblank [OF assms])
  have ne: "(first_hash_of_type t hs \<noteq> []) = (?N t \<noteq> [])" for t
  proof (cases "?N t")
    case Nil
    with f [of t] show ?thesis by simp
  next
    case (Cons v vs)
    then have "v \<in> set (?N t)" by simp
    then have "v \<noteq> []" by simp
    with Cons f [of t] show ?thesis by simp
  qed
  have hd: "?N t \<noteq> [] \<Longrightarrow> first_hash_of_type t hs = hd (?N t)" for t
    using f [of t] by (cases "?N t") simp_all
  have c: "claimed_hash hs =
      (case find (\<lambda>t. ?N t \<noteq> []) ?order of None \<Rightarrow> [] | Some t \<Rightarrow> t @ '' | '' @ hd (?N t))"
    unfolding claimed_hash_def
    by (rule first_of_concat [of "\<lambda>t v. t @ '' | '' @ v" ?N ?order])
  have s: "scanned_hash hs =
      (case find (\<lambda>t. ?N t \<noteq> []) ?order of
         None \<Rightarrow> [] | Some t \<Rightarrow> t @ '' | '' @ first_hash_of_type t hs)"
    unfolding scanned_hash_def ne ..
  show ?thesis
  proof (cases "find (\<lambda>t. ?N t \<noteq> []) ?order")
    case None
    with c s show ?thesis by simp
  next
    case (Some t)
    from find_holds [OF Some] have "?N t \<noteq> []" .
    from hd [OF this] Some c s show ?thesis by simp
  qed
qed

text \<open>
  C7, as the claim states it, at the hash records \<^verbatim>\<open>AutoV2\<close> with a blank hash, \<^verbatim>\<open>AUTOV2\<close>
  with the hash \<^verbatim>\<open>y\<close> and, in the second input, \<^verbatim>\<open>crc32\<close> with the hash \<^verbatim>\<open>c\<close>: the first hash
  under the preference order that is not empty is \<^verbatim>\<open>y\<close>, of type AUTOV2. The Hash field is
  empty for the first input and is the CRC32 hash for the second, because the inner loop
  stops at the first record of a type that has a hash, and the blank hash of that record
  is stripped to the empty string.
\<close>

theorem hash_blank_first_counterexample:
  "field (extract_fields offline (Some (JDict a_model))
     (Some (JDict (version_with [JDict (file_of ''Model'' (JList blank_first))])))) ''Hash''
     = Some []
   \<and> claimed_hash blank_first = ''AUTOV2 | y''
   \<and> field (extract_fields offline (Some (JDict a_model))
     (Some (JDict (version_with [JDict (file_of ''Model'' (JList blank_first_crc))])))) ''Hash''
     = Some ''CRC32 | c''
   \<and> claimed_hash blank_first_crc = ''AUTOV2 | y''"
  by code_simp

text \<open>
  C7, amended: for every model file whose \<^verbatim>\<open>hashes\<close> is a list of hash records, the Hash
  field is produced by scanning the preference order AUTOV2, SHA256, SHA1, CRC32, the
  type of a record being compared without regard to case: for each type only the first
  record of that type that has a hash is read, and its hash is stripped; the first type
  for which this gives a hash that is not empty is rendered as the type, a bar and the
  hash, and the field is empty when no type does. When no record has a blank hash, this
  is the first hash under the preference order that is not empty, as the specification
  words it.
\<close>

theorem hash_preference_order:
  assumes "m \<noteq> []"
    and "dict_get v ''files'' = JList (pre @ JDict f # post)"
    and "skipped pre" and "is_model_type (dict_get f ''type'')"
    and "build_usage_tips (JDict v) = Inr tips"
    and "dict_get f ''hashes'' = JList hs"
  shows "field (extract_fields w (Some (JDict m)) (Some (JDict v))) ''Hash'' = Some (scanned_hash hs)
       \<and> (no_blank_hash hs \<longrightarrow>
            field (extract_fields w (Some (JDict m)) (Some (JDict v))) ''Hash''
              = Some (claimed_hash hs))"
proof -
  have "py_or (JList hs) (JList []) = JList hs" by (cases hs) (simp_all add: py_or_def)
  with field_model_file(1) [OF assms(1-5), of w] assms(6)
  have "field (extract_fields w (Some (JDict m)) (Some (JDict v))) ''Hash'' = Some (scanned_hash hs)"
    by (simp add: resolve_hash_list)
  then show ?thesis by (simp add: scanned_hash_claimed)
qed

theorem hash_preference_order_witness:
  "field (extract_fields offline (Some (JDict a_model))
     (Some (JDict (version_with
        [JDict (file_of ''Model''
           (JList [hash_record ''SHA256'' ''x'', hash_record ''AutoV2'' ''y'']))]))))
     ''Hash'' = Some ''AUTOV2 | y''
   \<and> field (extract_fields offline (Some (JDict a_model))
     (Some (JDict (version_with [JDict (file_of ''Model'' (JList blank_first_crc))])))) ''Hash''
     = Some ''CRC32 | c''"
proof (intro conjI)
  let ?hs = "[hash_record ''SHA256'' ''x'', hash_record ''AutoV2'' ''y'']"
  have f: "dict_get (version_with [JDict (file_of ''Model'' (JList ?hs))]) ''files'' =
        JList ([] @ JDict (file_of ''Model'' (JList ?hs)) # [])"
    by (simp add: version_with_files)
  have s: "skipped []" by (simp add: skipped_def)
  have t: "is_model_type (dict_get (file_of ''Model'' (JList ?hs)) ''type'')"
    by (simp add: file_of_type is_model_type_def)
  have n: "no_blank_hash ?hs" by code_simp
  have h: "claimed_hash ?hs = ''AUTOV2 | y''" by code_simp
  note r = hash_preference_order
    [OF a_model_nonempty f s t version_with_tips file_of_hashes, of offline, THEN conjunct2]
  from mp [OF r n] h
  show "field (extract_fields offline (Some (JDict a_model))
     (Some (JDict (version_with [JDict (file_of ''Model'' (JList ?hs))])))) ''Hash''
     = Some ''AUTOV2 | y''"
    by simp
next
  have f: "dict_get (version_with [JDict (file_of ''Model'' (JList blank_first_crc))]) ''files'' =
        JList ([] @ JDict (file_of ''Model'' (JList blank_first_crc)) # [])"
    by (simp add: version_with_files)
  have s: "skipped []" by (simp add: skipped_def)
  have t: "is_model_type (dict_get (file_of ''Model'' (JList blank_first_crc)) ''type'')"
    by (simp add: file_of_type is_model_type_def)
  have h: "scanned_hash blank_first_crc = ''CRC32 | c''" by code_simp
  note r = hash_preference_order
    [OF a_model_nonempty f s t version_with_tips file_of_hashes, of offline, THEN conjunct1]
  from r h
  show "field (extract_fields offline (Some (JDict a_model))
     (Some (JDict (version_with [JDict (file_of ''Model'' (JList blank_first_crc))])))) ''Hash''
     = Some ''CRC32 | c''"
    by simp
qed

end
